theory Spec2Isabelle
  imports Main "HOL-Library.Word"
begin

section \<open>Common types\<close>

text \<open>
  The sources are C (\<^verbatim>\<open>storage_mgr.c\<close>, \<^verbatim>\<open>buffer_mgr.c\<close>, \<^verbatim>\<open>record_mgr.c\<close>,
  \<^verbatim>\<open>btree_mgr.c\<close>).  A page buffer (\<^verbatim>\<open>SM_PageHandle = char *\<close>) is a list of bytes.
  The return codes are the macros of \<^verbatim>\<open>dberror.h\<close>, which is not among the sources; they
  are taken to be pairwise distinct, which a datatype expresses.  \<^verbatim>\<open>PAGE_SIZE\<close> is a macro
  of the same header: every function that uses it takes it as its first argument.
  C \<^verbatim>\<open>int\<close> values are modelled by \<open>int\<close>; arithmetic overflow of page numbers and
  counters is not modelled.
\<close>

type_synonym byte = "8 word"
type_synonym page = "byte list"

datatype RC =
    RC_OK
  | RC_FILE_NOT_FOUND
  | RC_FILE_HANDLE_NOT_INIT
  | RC_WRITE_FAILED
  | RC_READ_NON_EXISTING_PAGE
  | RC_FILE_CLOSE_FAILED
  | RC_ERROR
  | RC_PINNED_PAGES_IN_BUFFER
  | RC_INVALID_PARAMETER
  | RC_MEMORY_ALLOCATION_ERROR
  | RC_RM_NO_TUPLE_WITH_GIVEN_RID
  | RC_RM_NO_MORE_TUPLES
  | RC_RM_COMPARE_VALUE_OF_DIFFERENT_DATATYPE
  | RC_RM_UNKOWN_DATATYPE
  | RC_SCAN_CONDITION_NOT_FOUND
  | RC_NULL_POINTER
  | RC_MALLOC_FAILED
  | RC_IM_KEY_NOT_FOUND
  | RC_IM_NO_MORE_ENTRIES

section \<open>Storage manager (storage\_mgr.c)\<close>

text \<open>
  The file system maps a file name to the bytes of the file.  A file handle carries the
  fields of \<^verbatim>\<open>SM_FileHandle\<close>; its stream (\<^verbatim>\<open>mgmtInfo\<close>) is represented by the bytes
  of the open file, which the block operations take and return.  A pointer argument that
  the source tests against \<^verbatim>\<open>NULL\<close> is an \<open>option\<close>.  Whether \<^verbatim>\<open>fseek\<close> or the
  transfer (\<^verbatim>\<open>fread\<close>, \<^verbatim>\<open>fwrite\<close>) fails on the device is an argument of the block
  operations.  An \<^verbatim>\<open>fwrite\<close> that fails in \<^verbatim>\<open>writeBlock\<close> may have written a part of the
  page: the argument \<open>write_fails\<close> of \<^verbatim>\<open>writeBlock\<close> is \<open>None\<close> when the write succeeds
  and \<open>Some left\<close> when it fails and leaves \<open>left\<close> as the bytes of the file.
\<close>

type_synonym filesys = "string \<Rightarrow> byte list option"

record SM_FileHandle =
  fileName :: string
  totalNumPages :: int
  curPagePos :: int

text \<open>\<^verbatim>\<open>memset(buf, 0, n)\<close> on a fresh buffer.\<close>

definition zeroes :: "nat \<Rightarrow> byte list" where
  "zeroes n = replicate n 0"

text \<open>
  \<^verbatim>\<open>fseek(fp, off, SEEK_SET); fwrite(buf, len, 1, fp)\<close>: the bytes at
  \<open>off ..< off + length buf\<close> are replaced; a seek past the end leaves a gap of zero
  bytes, as the C library does.
\<close>

definition fwrite_at :: "nat \<Rightarrow> byte list \<Rightarrow> byte list \<Rightarrow> byte list" where
  "fwrite_at off buf bytes =
     take off (bytes @ zeroes (off - length bytes)) @ buf @ drop (off + length buf) bytes"

text \<open>
  \<^verbatim>\<open>fseek(fp, off, SEEK_SET); fread(memPage, PAGE_SIZE, 1, fp)\<close>: the item is read
  only when all its bytes are there; a short read stores the bytes that are there at the
  start of the buffer and reports no item.
\<close>

definition fread_at :: "nat \<Rightarrow> nat \<Rightarrow> byte list \<Rightarrow> byte list \<Rightarrow> bool \<times> byte list" where
  "fread_at off len bytes memPage =
     (let got = take len (drop off bytes)
      in (length got = len, got @ drop (length got) memPage))"

text \<open>
  \<^verbatim>\<open>createPageFile\<close> of a file name that is not \<^verbatim>\<open>NULL\<close>.  \<^verbatim>\<open>fopen(filename, "w")\<close>
  truncates the file when it succeeds; whether \<^verbatim>\<open>fopen\<close> or \<^verbatim>\<open>malloc\<close> fails is an
  argument, and \<open>write_fails\<close> is \<open>None\<close> when \<^verbatim>\<open>fwrite\<close> writes the page and \<open>Some left\<close>
  when it fails and leaves \<open>left\<close> as the bytes of the file.
\<close>

definition createPageFile ::
  "nat \<Rightarrow> bool \<Rightarrow> bool \<Rightarrow> byte list option \<Rightarrow> filesys \<Rightarrow> string \<Rightarrow> RC \<times> filesys" where
  "createPageFile PAGE_SIZE fopen_fails malloc_fails write_fails fs filename =
     (if fopen_fails then (RC_FILE_NOT_FOUND, fs)
      else if malloc_fails then (RC_WRITE_FAILED, fs(filename \<mapsto> []))
      else
        (case write_fails of
           Some left \<Rightarrow> (RC_WRITE_FAILED, fs(filename \<mapsto> left))
         | None \<Rightarrow> (RC_OK, fs(filename \<mapsto> zeroes PAGE_SIZE))))"

definition openPageFile :: "nat \<Rightarrow> filesys \<Rightarrow> string \<Rightarrow> RC + SM_FileHandle" where
  "openPageFile PAGE_SIZE fs filename =
     (case fs filename of
        None \<Rightarrow> Inl RC_FILE_NOT_FOUND
      | Some bytes \<Rightarrow>
          Inr \<lparr> fileName = filename,
                totalNumPages = (int (length bytes) + int PAGE_SIZE - 1) div int PAGE_SIZE,
                curPagePos = 0 \<rparr>)"

definition validate_read :: "SM_FileHandle option \<Rightarrow> int \<Rightarrow> page option \<Rightarrow> RC" where
  "validate_read fh pageNum memPage =
     (case fh of
        None \<Rightarrow> RC_FILE_HANDLE_NOT_INIT
      | Some h \<Rightarrow>
          (case memPage of
             None \<Rightarrow> RC_WRITE_FAILED
           | Some _ \<Rightarrow>
               if pageNum < 0 \<or> pageNum \<ge> totalNumPages h then RC_READ_NON_EXISTING_PAGE
               else RC_OK))"

definition readBlock ::
  "nat \<Rightarrow> bool \<Rightarrow> bool \<Rightarrow> int \<Rightarrow> SM_FileHandle option \<Rightarrow> page option \<Rightarrow> byte list
     \<Rightarrow> RC \<times> SM_FileHandle option \<times> page option" where
  "readBlock PAGE_SIZE seek_fails read_fails pageNum fh memPage bytes =
     (let valid = validate_read fh pageNum memPage in
      if valid \<noteq> RC_OK then (valid, fh, memPage)
      else if seek_fails then (RC_READ_NON_EXISTING_PAGE, fh, memPage)
      else if read_fails then (RC_READ_NON_EXISTING_PAGE, fh, memPage)
      else
        (case fread_at (nat pageNum * PAGE_SIZE) PAGE_SIZE bytes (the memPage) of
           (False, buf) \<Rightarrow> (RC_READ_NON_EXISTING_PAGE, fh, Some buf)
         | (True, buf) \<Rightarrow>
             (RC_OK, map_option (\<lambda>h. h\<lparr>curPagePos := pageNum\<rparr>) fh, Some buf)))"

definition writeBlock ::
  "nat \<Rightarrow> bool \<Rightarrow> byte list option \<Rightarrow> int \<Rightarrow> SM_FileHandle option \<Rightarrow> page option
     \<Rightarrow> byte list \<Rightarrow> RC \<times> SM_FileHandle option \<times> byte list" where
  "writeBlock PAGE_SIZE seek_fails write_fails pageNum fh memPage bytes =
     (case fh of
        None \<Rightarrow> (RC_FILE_HANDLE_NOT_INIT, fh, bytes)
      | Some h \<Rightarrow>
          (case memPage of
             None \<Rightarrow> (RC_FILE_HANDLE_NOT_INIT, fh, bytes)
           | Some buf \<Rightarrow>
               if pageNum < 0 \<or> pageNum \<ge> totalNumPages h
               then (RC_READ_NON_EXISTING_PAGE, fh, bytes)
               else if seek_fails then (RC_WRITE_FAILED, fh, bytes)
               else
                 (case write_fails of
                    Some left \<Rightarrow> (RC_WRITE_FAILED, fh, left)
                  | None \<Rightarrow>
                      (RC_OK, Some (h\<lparr>curPagePos := pageNum\<rparr>),
                       fwrite_at (nat pageNum * PAGE_SIZE) (take PAGE_SIZE buf) bytes))))"

definition ensureCapacity ::
  "nat \<Rightarrow> bool \<Rightarrow> int \<Rightarrow> SM_FileHandle option \<Rightarrow> byte list
     \<Rightarrow> RC \<times> SM_FileHandle option \<times> byte list" where
  "ensureCapacity PAGE_SIZE write_fails numPages fh bytes =
     (case fh of
        None \<Rightarrow> (RC_FILE_HANDLE_NOT_INIT, fh, bytes)
      | Some h \<Rightarrow>
          if numPages \<le> 0 then (RC_READ_NON_EXISTING_PAGE, fh, bytes)
          else if totalNumPages h \<ge> numPages then (RC_OK, fh, bytes)
          else
            (let needed = numPages - totalNumPages h in
             if write_fails then (RC_WRITE_FAILED, fh, bytes)
             else (RC_OK, Some (h\<lparr>totalNumPages := numPages\<rparr>),
                   bytes @ zeroes (nat needed * PAGE_SIZE))))"

section \<open>Buffer manager (buffer\_mgr.c)\<close>

text \<open>
  What a call does besides returning a value: it can return, it can run into undefined
  behaviour of C (a \<^verbatim>\<open>NULL\<close> dereference, a write past a buffer, a remainder by zero),
  or it can loop forever.  Loops that may not terminate are defined with
  \<^theory_text>\<open>partial_function (option)\<close>, where \<open>None\<close> is "does not return"; the function that
  runs the loop turns \<open>None\<close> into \<open>Diverges\<close>.
\<close>

datatype 'a outcome = Returns 'a | Fault | Diverges

datatype ReplacementStrategy = RS_FIFO | RS_LRU | RS_CLOCK | RS_LFU | RS_LRU_K

text \<open>
  A frame of the pool.  The list links \<^verbatim>\<open>next\<close> and \<^verbatim>\<open>prev\<close> are the order of the list
  \<open>frames\<close> below; \<^verbatim>\<open>accessHistory\<close> and \<^verbatim>\<open>historySize\<close> are never read or written.
\<close>

record DLNode =
  data :: page
  pageNum :: int
  isDirty :: bool
  pinCount :: int
  accessCount :: int
  lastAccessed :: int

text \<open>
  \<open>frames\<close> is the list from \<^verbatim>\<open>head\<close> to \<^verbatim>\<open>tail\<close>.  Nodes are appended and never
  unlinked, so a pointer to a node is its position in \<open>frames\<close>; \<^verbatim>\<open>fifoHead\<close> is such a
  pointer or \<^verbatim>\<open>NULL\<close>.
\<close>

record BufferPoolMetadata =
  frames :: "DLNode list"
  fifoHead :: "nat option"
  numFramesUsed :: int
  totalFrames :: int
  readCount :: int
  writeCount :: int
  clockHand :: int
  globalTimer :: int

record BM_BufferPool =
  pageFile :: string
  numPages :: int
  strategy :: ReplacementStrategy
  mgmtData :: BufferPoolMetadata

text \<open>
  A page handle: \<^verbatim>\<open>page->pageNum\<close>, and \<^verbatim>\<open>page->data\<close>, which points to the buffer of a
  frame and is represented by the position of that frame.
\<close>

record BM_PageHandle =
  ph_pageNum :: int
  ph_frame :: nat

definition createNode :: "page \<Rightarrow> int \<Rightarrow> DLNode" where
  "createNode d pn =
     \<lparr> data = d, pageNum = pn, isDirty = False, pinCount = 1, accessCount = 1,
       lastAccessed = 0 \<rparr>"

text \<open>\<^verbatim>\<open>findPage\<close>: the first node of the list that holds the page.\<close>

primrec find_node :: "DLNode list \<Rightarrow> int \<Rightarrow> nat option" where
  "find_node [] pn = None"
| "find_node (current # rest) pn =
     (if pageNum current = pn then Some 0 else map_option Suc (find_node rest pn))"

definition findPage :: "BufferPoolMetadata \<Rightarrow> int \<Rightarrow> nat option" where
  "findPage metadata pn = find_node (frames metadata) pn"

text \<open>\<^verbatim>\<open>current->next\<close>, or \<^verbatim>\<open>head\<close> when that is \<^verbatim>\<open>NULL\<close>.\<close>

definition next_node :: "DLNode list \<Rightarrow> nat \<Rightarrow> nat" where
  "next_node fs current = (if Suc current < length fs then Suc current else 0)"

text \<open>
  The \<^verbatim>\<open>do ... while (current != startNode)\<close> loop of \<^verbatim>\<open>replaceFIFO\<close>, entered with
  nodes of the list.
\<close>

function fifo_loop :: "DLNode list \<Rightarrow> nat \<Rightarrow> nat \<Rightarrow> nat option" where
  "fifo_loop fs startNode current =
     (if length fs \<le> current \<or> length fs \<le> startNode then None
      else if pinCount (fs ! current) = 0 then Some current
      else if next_node fs current \<noteq> startNode
      then fifo_loop fs startNode (next_node fs current)
      else None)"
  by pat_completeness auto
termination
  by (relation "measure (\<lambda>(fs, s, c). if c < s then s - c else s + length fs - c)")
     (auto simp: next_node_def split: if_splits)

declare fifo_loop.simps [simp del]

definition replaceFIFO ::
  "BufferPoolMetadata \<Rightarrow> (nat option \<times> BufferPoolMetadata) outcome" where
  "replaceFIFO metadata =
     (let m1 = (if fifoHead metadata = None
                then metadata\<lparr>fifoHead := (if frames metadata = [] then None else Some 0)\<rparr>
                else metadata)
      in case fifoHead m1 of
           None \<Rightarrow> Fault
         | Some startNode \<Rightarrow>
             if length (frames m1) \<le> startNode then Fault
             else
               (case fifo_loop (frames m1) startNode startNode of
                  None \<Rightarrow> Returns (None, m1)
                | Some v \<Rightarrow>
                    Returns (Some v, m1\<lparr>fifoHead := Some (next_node (frames m1) v)\<rparr>)))"

primrec lru_loop :: "DLNode list \<Rightarrow> nat \<Rightarrow> nat option \<Rightarrow> int \<Rightarrow> nat option" where
  "lru_loop [] i victim minAccess = victim"
| "lru_loop (current # rest) i victim minAccess =
     (if pinCount current = 0 \<and> lastAccessed current < minAccess
      then lru_loop rest (Suc i) (Some i) (lastAccessed current)
      else lru_loop rest (Suc i) victim minAccess)"

definition replaceLRU :: "BufferPoolMetadata \<Rightarrow> nat option" where
  "replaceLRU metadata = lru_loop (frames metadata) 0 None (globalTimer metadata + 1)"

primrec lfu_loop ::
  "DLNode list \<Rightarrow> nat \<Rightarrow> nat option \<Rightarrow> int \<Rightarrow> int \<Rightarrow> nat option" where
  "lfu_loop [] i victim minCount oldestTimestamp = victim"
| "lfu_loop (current # rest) i victim minCount oldestTimestamp =
     (if pinCount current = 0
      then
        (if victim = None
         then lfu_loop rest (Suc i) (Some i) (accessCount current) (lastAccessed current)
         else if accessCount current < minCount
         then lfu_loop rest (Suc i) (Some i) (accessCount current) (lastAccessed current)
         else if accessCount current = minCount \<and> lastAccessed current < oldestTimestamp
         then lfu_loop rest (Suc i) (Some i) minCount (lastAccessed current)
         else lfu_loop rest (Suc i) victim minCount oldestTimestamp)
      else lfu_loop rest (Suc i) victim minCount oldestTimestamp)"

text \<open>\<^verbatim>\<open>INT_MAX\<close> of a 32-bit \<^verbatim>\<open>int\<close>.\<close>

definition INT_MAX :: int where
  "INT_MAX = 2147483647"

definition replaceLFU :: "BufferPoolMetadata \<Rightarrow> nat option" where
  "replaceLFU metadata = lfu_loop (frames metadata) 0 None INT_MAX INT_MAX"

text \<open>The remainder of C, which truncates towards zero.\<close>

definition c_rem :: "int \<Rightarrow> int \<Rightarrow> int" where
  "c_rem a b = sgn a * (\<bar>a\<bar> mod \<bar>b\<bar>)"

text \<open>
  \<^verbatim>\<open>replaceCLOCK\<close>, first loop: \<^verbatim>\<open>clockHand\<close> steps from the head, on a list that is not
  empty.
\<close>

primrec clock_seek :: "DLNode list \<Rightarrow> nat \<Rightarrow> nat" where
  "clock_seek fs 0 = 0"
| "clock_seek fs (Suc i) = next_node fs (clock_seek fs i)"

text \<open>
  \<^verbatim>\<open>replaceCLOCK\<close>, second loop: \<^verbatim>\<open>while (true)\<close>.  It returns only from inside, with a
  frame that is unpinned and has access count 0.
\<close>

partial_function (option) clock_loop ::
  "BufferPoolMetadata \<Rightarrow> nat \<Rightarrow> (nat \<times> BufferPoolMetadata) outcome option" where
  "clock_loop metadata current =
     (if length (frames metadata) \<le> current \<or> totalFrames metadata = 0 then Some Fault
      else
        (let node = frames metadata ! current;
             hand = c_rem (clockHand metadata + 1) (totalFrames metadata)
         in if pinCount node = 0 \<and> accessCount node = 0
            then Some (Returns (current, metadata\<lparr>clockHand := hand\<rparr>))
            else
              (let fs = (if accessCount node > 0
                         then (frames metadata)[current := node\<lparr>accessCount := 0\<rparr>]
                         else frames metadata)
               in clock_loop (metadata\<lparr>frames := fs, clockHand := hand\<rparr>)
                    (next_node fs current))))"

declare clock_loop.simps [code]

definition replaceCLOCK ::
  "BufferPoolMetadata \<Rightarrow> (nat option \<times> BufferPoolMetadata) outcome" where
  "replaceCLOCK metadata =
     (if frames metadata = [] then Fault
      else
        (case clock_loop metadata
                (clock_seek (frames metadata) (nat (clockHand metadata))) of
           None \<Rightarrow> Diverges
         | Some Fault \<Rightarrow> Fault
         | Some Diverges \<Rightarrow> Diverges
         | Some (Returns (v, m)) \<Rightarrow> Returns (Some v, m)))"

definition initBufferPool :: "string \<Rightarrow> int \<Rightarrow> ReplacementStrategy \<Rightarrow> RC \<times> BM_BufferPool" where
  "initBufferPool pageFileName n strat =
     (RC_OK,
      \<lparr> pageFile = pageFileName, numPages = n, strategy = strat,
        mgmtData = \<lparr> frames = [], fifoHead = None, numFramesUsed = 0, totalFrames = n,
                     readCount = 0, writeCount = 0, clockHand = 0, globalTimer = 0 \<rparr> \<rparr>)"

text \<open>
  \<^verbatim>\<open>sprintf(buf, "Page-%i", pageNum)\<close>: the characters, a terminating zero byte, and the
  rest of the buffer as it was.  A text longer than the buffer is written past its end.
\<close>

function decimal :: "nat \<Rightarrow> byte list" where
  "decimal n = (if n < 10 then [of_nat (48 + n)]
                else decimal (n div 10) @ [of_nat (48 + n mod 10)])"
  by pat_completeness auto
termination
  by (relation "measure id") auto

declare decimal.simps [simp del]

definition page_text :: "int \<Rightarrow> byte list" where
  "page_text pn =
     [0x50, 0x61, 0x67, 0x65, 0x2D]
       @ (if pn < 0 then 0x2D # decimal (nat (- pn)) else decimal (nat pn)) @ [0]"

definition sprintf_Page :: "page \<Rightarrow> int \<Rightarrow> page outcome" where
  "sprintf_Page buf pn =
     (if length (page_text pn) \<le> length buf
      then Returns (page_text pn @ drop (length (page_text pn)) buf)
      else Fault)"

text \<open>The bytes of an open file.\<close>

definition file_bytes :: "filesys \<Rightarrow> string \<Rightarrow> byte list" where
  "file_bytes fs name = (case fs name of None \<Rightarrow> [] | Some bytes \<Rightarrow> bytes)"

text \<open>
  The text that both loading branches of \<^verbatim>\<open>pinPage\<close> share (lines 499-522 and 609-629):
  \<^verbatim>\<open>ensureCapacity(pageNum + 1, &fh)\<close>, then \<^verbatim>\<open>readBlock\<close> when
  \<^verbatim>\<open>pageNum < fh.totalNumPages\<close>, and \<^verbatim>\<open>sprintf\<close> when the read fails or the page does
  not exist.  The device is one on which \<^verbatim>\<open>fseek\<close>, \<^verbatim>\<open>fread\<close> and \<^verbatim>\<open>fwrite\<close> do not
  fail; \<^verbatim>\<open>malloc\<close> does not fail either.
\<close>

definition fetch_page ::
  "nat \<Rightarrow> int \<Rightarrow> SM_FileHandle \<Rightarrow> page \<Rightarrow> byte list \<Rightarrow> (RC \<times> page \<times> byte list) outcome" where
  "fetch_page PAGE_SIZE pn fh buf bytes =
     (case ensureCapacity PAGE_SIZE False (pn + 1) (Some fh) bytes of
        (rc, fh1, bytes1) \<Rightarrow>
          if rc \<noteq> RC_OK then Returns (rc, buf, bytes1)
          else
            (case fh1 of
               None \<Rightarrow> Fault
             | Some h1 \<Rightarrow>
                 if pn < totalNumPages h1
                 then
                   (case readBlock PAGE_SIZE False False pn fh1 (Some buf) bytes1 of
                      (rc2, fh2, buf2) \<Rightarrow>
                        (case buf2 of
                           None \<Rightarrow> Fault
                         | Some b2 \<Rightarrow>
                             if rc2 \<noteq> RC_OK
                             then
                               (case sprintf_Page b2 pn of
                                  Returns b3 \<Rightarrow> Returns (RC_OK, b3, bytes1)
                                | Fault \<Rightarrow> Fault
                                | Diverges \<Rightarrow> Diverges)
                             else Returns (RC_OK, b2, bytes1)))
                 else
                   (case sprintf_Page buf pn of
                      Returns b3 \<Rightarrow> Returns (RC_OK, b3, bytes1)
                    | Fault \<Rightarrow> Fault
                    | Diverges \<Rightarrow> Diverges)))"

text \<open>The victim of the pool's strategy (the \<^verbatim>\<open>switch\<close> of \<^verbatim>\<open>pinPage\<close>).\<close>

definition select_victim ::
  "ReplacementStrategy \<Rightarrow> BufferPoolMetadata \<Rightarrow> (nat option \<times> BufferPoolMetadata) outcome" where
  "select_victim strat metadata =
     (case strat of
        RS_FIFO \<Rightarrow> replaceFIFO metadata
      | RS_LRU \<Rightarrow> Returns (replaceLRU metadata, metadata)
      | RS_CLOCK \<Rightarrow> replaceCLOCK metadata
      | RS_LRU_K \<Rightarrow> Returns (None, metadata)
      | RS_LFU \<Rightarrow> Returns (replaceLFU metadata, metadata))"

text \<open>\<^verbatim>\<open>pinPage\<close>, the page is in the pool (lines 464-478).\<close>

definition pin_resident ::
  "BM_BufferPool \<Rightarrow> nat \<Rightarrow> int \<Rightarrow> BM_BufferPool \<times> BM_PageHandle" where
  "pin_resident bm i pn =
     (let metadata = mgmtData bm;
          node = frames metadata ! i;
          t = globalTimer metadata + 1;
          node' = node\<lparr>pinCount := pinCount node + 1, accessCount := accessCount node + 1,
                       lastAccessed := t\<rparr>
      in (bm\<lparr>mgmtData := metadata\<lparr>frames := (frames metadata)[i := node'],
                                   globalTimer := t\<rparr>\<rparr>,
          \<lparr>ph_pageNum = pn, ph_frame = i\<rparr>))"

text \<open>\<^verbatim>\<open>pinPage\<close>, the pool has a free frame (lines 481-557).\<close>

definition pin_new_frame ::
  "nat \<Rightarrow> BM_BufferPool \<Rightarrow> BM_PageHandle \<Rightarrow> int \<Rightarrow> filesys
     \<Rightarrow> (RC \<times> BM_BufferPool \<times> BM_PageHandle \<times> filesys) outcome" where
  "pin_new_frame PAGE_SIZE bm page pn fs =
     (let metadata = mgmtData bm in
      case openPageFile PAGE_SIZE fs (pageFile bm) of
        Inl rc \<Rightarrow> Returns (rc, bm, page, fs)
      | Inr fh \<Rightarrow>
          (case fetch_page PAGE_SIZE pn fh (zeroes PAGE_SIZE) (file_bytes fs (pageFile bm)) of
             Fault \<Rightarrow> Fault
           | Diverges \<Rightarrow> Diverges
           | Returns (rc, newData, bytes1) \<Rightarrow>
               if rc \<noteq> RC_OK then Returns (rc, bm, page, fs(pageFile bm \<mapsto> bytes1))
               else
                 (let t = globalTimer metadata + 1;
                      newNode = (createNode newData pn)\<lparr>lastAccessed := t\<rparr>;
                      k = length (frames metadata)
                  in Returns
                       (RC_OK,
                        bm\<lparr>mgmtData := metadata
                             \<lparr>frames := frames metadata @ [newNode],
                              fifoHead := (if fifoHead metadata = None then Some k
                                           else fifoHead metadata),
                              numFramesUsed := numFramesUsed metadata + 1,
                              readCount := readCount metadata + 1,
                              globalTimer := t\<rparr>\<rparr>,
                        \<lparr>ph_pageNum = pn, ph_frame = k\<rparr>,
                        fs(pageFile bm \<mapsto> bytes1)))))"

text \<open>
  \<^verbatim>\<open>pinPage\<close>, the pool is full and the strategy has returned \<open>victim\<close> with the metadata
  \<open>m\<close> (lines 583-646).
\<close>

definition pin_replace ::
  "nat \<Rightarrow> BM_BufferPool \<Rightarrow> BufferPoolMetadata \<Rightarrow> nat option \<Rightarrow> BM_PageHandle \<Rightarrow> int \<Rightarrow> filesys
     \<Rightarrow> (RC \<times> BM_BufferPool \<times> BM_PageHandle \<times> filesys) outcome" where
  "pin_replace PAGE_SIZE bm m victim page pn fs =
     (case victim of
        None \<Rightarrow> Returns (RC_ERROR, bm\<lparr>mgmtData := m\<rparr>, page, fs)
      | Some v \<Rightarrow>
          if length (frames m) \<le> v then Fault
          else if pinCount (frames m ! v) > 0
          then Returns (RC_ERROR, bm\<lparr>mgmtData := m\<rparr>, page, fs)
          else
            (let node = frames m ! v in
             case (if isDirty node
                   then
                     (case openPageFile PAGE_SIZE fs (pageFile bm) of
                        Inl rc \<Rightarrow> Inl rc
                      | Inr fh \<Rightarrow>
                          (case writeBlock PAGE_SIZE False None (pageNum node) (Some fh)
                                  (Some (data node)) (file_bytes fs (pageFile bm)) of
                             (rc, fh1, bytes1) \<Rightarrow>
                               Inr (fs(pageFile bm \<mapsto> bytes1),
                                    m\<lparr>writeCount := writeCount m + 1\<rparr>)))
                   else Inr (fs, m)) of
               Inl rc \<Rightarrow> Returns (rc, bm\<lparr>mgmtData := m\<rparr>, page, fs)
             | Inr (fs1, m1) \<Rightarrow>
                 (let cleared = node\<lparr>data := zeroes PAGE_SIZE\<rparr>;
                      m2 = m1\<lparr>frames := (frames m1)[v := cleared]\<rparr>
                  in case openPageFile PAGE_SIZE fs1 (pageFile bm) of
                       Inl rc \<Rightarrow> Returns (rc, bm\<lparr>mgmtData := m2\<rparr>, page, fs1)
                     | Inr fh \<Rightarrow>
                         (case fetch_page PAGE_SIZE pn fh (data cleared)
                                 (file_bytes fs1 (pageFile bm)) of
                            Fault \<Rightarrow> Fault
                          | Diverges \<Rightarrow> Diverges
                          | Returns (rc, newData, bytes2) \<Rightarrow>
                              if rc \<noteq> RC_OK
                              then Returns (rc, bm\<lparr>mgmtData := m2\<rparr>, page,
                                            fs1(pageFile bm \<mapsto> bytes2))
                              else
                                (let t = globalTimer m2 + 1;
                                     loaded = cleared\<lparr>data := newData, pageNum := pn,
                                                isDirty := False, pinCount := 1,
                                                lastAccessed := t\<rparr>
                                 in Returns
                                      (RC_OK,
                                       bm\<lparr>mgmtData := m2
                                            \<lparr>frames := (frames m2)[v := loaded],
                                             globalTimer := t,
                                             readCount := readCount m2 + 1\<rparr>\<rparr>,
                                       \<lparr>ph_pageNum = pn, ph_frame = v\<rparr>,
                                       fs1(pageFile bm \<mapsto> bytes2)))))))"

definition pinPage ::
  "nat \<Rightarrow> BM_BufferPool \<Rightarrow> BM_PageHandle \<Rightarrow> int \<Rightarrow> filesys
     \<Rightarrow> (RC \<times> BM_BufferPool \<times> BM_PageHandle \<times> filesys) outcome" where
  "pinPage PAGE_SIZE bm page pn fs =
     (let metadata = mgmtData bm in
      case findPage metadata pn of
        Some i \<Rightarrow>
          (case pin_resident bm i pn of (bm', page') \<Rightarrow> Returns (RC_OK, bm', page', fs))
      | None \<Rightarrow>
          if numFramesUsed metadata < totalFrames metadata
          then pin_new_frame PAGE_SIZE bm page pn fs
          else
            (case select_victim (strategy bm) metadata of
               Fault \<Rightarrow> Fault
             | Diverges \<Rightarrow> Diverges
             | Returns (victim, m) \<Rightarrow> pin_replace PAGE_SIZE bm m victim page pn fs))"

definition markDirty :: "BM_BufferPool \<Rightarrow> BM_PageHandle \<Rightarrow> RC \<times> BM_BufferPool" where
  "markDirty bm page =
     (let metadata = mgmtData bm in
      case findPage metadata (ph_pageNum page) of
        Some i \<Rightarrow>
          (RC_OK,
           bm\<lparr>mgmtData := metadata
                \<lparr>frames := (frames metadata)[i := (frames metadata ! i)\<lparr>isDirty := True\<rparr>]\<rparr>\<rparr>)
      | None \<Rightarrow> (RC_ERROR, bm))"

definition unpinPage :: "BM_BufferPool \<Rightarrow> BM_PageHandle \<Rightarrow> RC \<times> BM_BufferPool" where
  "unpinPage bm page =
     (let metadata = mgmtData bm in
      case findPage metadata (ph_pageNum page) of
        Some i \<Rightarrow>
          (let node = frames metadata ! i in
           if pinCount node > 0
           then (RC_OK,
                 bm\<lparr>mgmtData := metadata
                      \<lparr>frames := (frames metadata)[i := node\<lparr>pinCount := pinCount node - 1\<rparr>]\<rparr>\<rparr>)
           else (RC_ERROR, bm))
      | None \<Rightarrow> (RC_ERROR, bm))"

text \<open>
  \<^verbatim>\<open>forcePage\<close> and \<^verbatim>\<open>forceFlushPool\<close> ignore the result of \<^verbatim>\<open>openPageFile\<close>: when the
  file cannot be opened, \<^verbatim>\<open>writeBlock\<close> works on a handle that was never initialised.
  The result of \<^verbatim>\<open>writeBlock\<close> is ignored too.
\<close>

definition write_frame :: "nat \<Rightarrow> string \<Rightarrow> DLNode \<Rightarrow> filesys \<Rightarrow> filesys outcome" where
  "write_frame PAGE_SIZE name node fs =
     (case openPageFile PAGE_SIZE fs name of
        Inl rc \<Rightarrow> Fault
      | Inr fh \<Rightarrow>
          (case writeBlock PAGE_SIZE False None (pageNum node) (Some fh) (Some (data node))
                  (file_bytes fs name) of
             (rc, fh1, bytes1) \<Rightarrow> Returns (fs(name \<mapsto> bytes1))))"

definition forcePage ::
  "nat \<Rightarrow> BM_BufferPool \<Rightarrow> BM_PageHandle \<Rightarrow> filesys \<Rightarrow> (RC \<times> BM_BufferPool \<times> filesys) outcome" where
  "forcePage PAGE_SIZE bm page fs =
     (let metadata = mgmtData bm in
      case findPage metadata (ph_pageNum page) of
        Some i \<Rightarrow>
          (case write_frame PAGE_SIZE (pageFile bm) (frames metadata ! i) fs of
             Returns fs1 \<Rightarrow>
               Returns
                 (RC_OK,
                  bm\<lparr>mgmtData := metadata
                       \<lparr>frames := (frames metadata)[i := (frames metadata ! i)\<lparr>isDirty := False\<rparr>],
                        writeCount := writeCount metadata + 1\<rparr>\<rparr>,
                  fs1)
           | Fault \<Rightarrow> Fault
           | Diverges \<Rightarrow> Diverges)
      | None \<Rightarrow> Returns (RC_ERROR, bm, fs))"

text \<open>
  The loop of \<^verbatim>\<open>forceFlushPool\<close> over the list: the nodes as they are left, the file
  system, and the number of pages written.
\<close>

primrec flush_loop ::
  "nat \<Rightarrow> string \<Rightarrow> DLNode list \<Rightarrow> filesys \<Rightarrow> (DLNode list \<times> filesys \<times> int) outcome" where
  "flush_loop PAGE_SIZE name [] fs = Returns ([], fs, 0)"
| "flush_loop PAGE_SIZE name (current # rest) fs =
     (if isDirty current \<and> pinCount current = 0
      then
        (case write_frame PAGE_SIZE name current fs of
           Returns fs1 \<Rightarrow>
             (case flush_loop PAGE_SIZE name rest fs1 of
                Returns (rest', fs2, n) \<Rightarrow>
                  Returns (current\<lparr>isDirty := False\<rparr> # rest', fs2, n + 1)
              | Fault \<Rightarrow> Fault
              | Diverges \<Rightarrow> Diverges)
         | Fault \<Rightarrow> Fault
         | Diverges \<Rightarrow> Diverges)
      else
        (case flush_loop PAGE_SIZE name rest fs of
           Returns (rest', fs2, n) \<Rightarrow> Returns (current # rest', fs2, n)
         | Fault \<Rightarrow> Fault
         | Diverges \<Rightarrow> Diverges))"

definition forceFlushPool ::
  "nat \<Rightarrow> BM_BufferPool \<Rightarrow> filesys \<Rightarrow> (RC \<times> BM_BufferPool \<times> filesys) outcome" where
  "forceFlushPool PAGE_SIZE bm fs =
     (let metadata = mgmtData bm in
      case flush_loop PAGE_SIZE (pageFile bm) (frames metadata) fs of
        Returns (fs', fs1, n) \<Rightarrow>
          Returns
            (RC_OK,
             bm\<lparr>mgmtData := metadata\<lparr>frames := fs', writeCount := writeCount metadata + n\<rparr>\<rparr>,
             fs1)
      | Fault \<Rightarrow> Fault
      | Diverges \<Rightarrow> Diverges)"

text \<open>
  The pool after \<^verbatim>\<open>shutdownBufferPool\<close>: \<^verbatim>\<open>bm->mgmtData\<close> (\<open>None\<close> is \<^verbatim>\<open>NULL\<close>) and the
  number of nodes at the front of the list whose storage (node and page buffer) the call
  has handed to \<^verbatim>\<open>free\<close>.  The loop frees the nodes in list order and returns at the
  first pinned one, which leaves the freed nodes linked.
\<close>

record pool_after_shutdown =
  remaining :: "BufferPoolMetadata option"
  freedNodes :: nat

primrec free_loop :: "DLNode list \<Rightarrow> nat \<Rightarrow> RC \<times> nat" where
  "free_loop [] k = (RC_OK, k)"
| "free_loop (current # rest) k =
     (if pinCount current > 0 then (RC_PINNED_PAGES_IN_BUFFER, k)
      else free_loop rest (Suc k))"

definition shutdownBufferPool ::
  "nat \<Rightarrow> BM_BufferPool \<Rightarrow> filesys \<Rightarrow> (RC \<times> pool_after_shutdown \<times> filesys) outcome" where
  "shutdownBufferPool PAGE_SIZE bm fs =
     (case forceFlushPool PAGE_SIZE bm fs of
        Returns (rc0, bm1, fs1) \<Rightarrow>
          (case free_loop (frames (mgmtData bm1)) 0 of
             (rc, k) \<Rightarrow>
               if rc = RC_OK
               then Returns (RC_OK, \<lparr>remaining = None, freedNodes = k\<rparr>, fs1)
               else Returns (rc, \<lparr>remaining = Some (mgmtData bm1), freedNodes = k\<rparr>, fs1))
      | Fault \<Rightarrow> Fault
      | Diverges \<Rightarrow> Diverges)"

text \<open>
  \<^verbatim>\<open>NO_PAGE\<close> is a macro of \<^verbatim>\<open>buffer_mgr.h\<close>, which is not among the sources; the
  assignment's header defines it as \<open>-1\<close>.
\<close>

definition NO_PAGE :: int where
  "NO_PAGE = - 1"

definition getFrameContents :: "BM_BufferPool \<Rightarrow> int list" where
  "getFrameContents bm =
     (let metadata = mgmtData bm;
          n = nat (totalFrames metadata);
          found = take n (map pageNum (frames metadata))
      in found @ replicate (n - length found) NO_PAGE)"

definition getFixCounts :: "BM_BufferPool \<Rightarrow> int list" where
  "getFixCounts bm =
     (let metadata = mgmtData bm;
          n = nat (totalFrames metadata);
          found = take n (map pinCount (frames metadata))
      in found @ replicate (n - length found) 0)"

text \<open>
  A client that loads pages one after the other: each page is pinned and unpinned again,
  as the scenarios of the specification do.  Any return code other than \<open>RC_OK\<close> ends
  the run as \<open>Fault\<close>.
\<close>

primrec pin_unpin_all ::
  "nat \<Rightarrow> int list \<Rightarrow> BM_BufferPool \<Rightarrow> filesys \<Rightarrow> (BM_BufferPool \<times> filesys) outcome" where
  "pin_unpin_all PAGE_SIZE [] bm fs = Returns (bm, fs)"
| "pin_unpin_all PAGE_SIZE (pn # pns) bm fs =
     (case pinPage PAGE_SIZE bm \<lparr>ph_pageNum = NO_PAGE, ph_frame = 0\<rparr> pn fs of
        Returns (rc, bm1, page1, fs1) \<Rightarrow>
          if rc \<noteq> RC_OK then Fault
          else
            (case unpinPage bm1 page1 of
               (rc2, bm2) \<Rightarrow>
                 if rc2 \<noteq> RC_OK then Fault else pin_unpin_all PAGE_SIZE pns bm2 fs1)
      | Fault \<Rightarrow> Fault
      | Diverges \<Rightarrow> Diverges)"

text \<open>
  The state in which the loop of \<^verbatim>\<open>replaceCLOCK\<close> finds no victim: the current node is a
  node of the list, no node has pin count 0, and \<^verbatim>\<open>totalFrames\<close> is not 0.
\<close>

definition all_pinned :: "BufferPoolMetadata \<Rightarrow> nat \<Rightarrow> bool" where
  "all_pinned m cur \<longleftrightarrow>
     (\<forall>n \<in> set (frames m). pinCount n \<noteq> 0) \<and> cur < length (frames m) \<and> totalFrames m \<noteq> 0"

text \<open>Page \<open>pn\<close> of a file: the \<open>PAGE_SIZE\<close> bytes at offset \<open>pn * PAGE_SIZE\<close>.\<close>

definition page_of :: "nat \<Rightarrow> byte list \<Rightarrow> int \<Rightarrow> page" where
  "page_of PAGE_SIZE bytes pn = take PAGE_SIZE (drop (nat pn * PAGE_SIZE) bytes)"

text \<open>
  The frames that \<^verbatim>\<open>forceFlushPool\<close> writes (dirty and not pinned), and a frame as the
  flush leaves it.
\<close>

definition needs_flush :: "DLNode \<Rightarrow> bool" where
  "needs_flush node \<longleftrightarrow> isDirty node \<and> pinCount node = 0"

definition flushed :: "DLNode \<Rightarrow> DLNode" where
  "flushed node = (if isDirty node \<and> pinCount node = 0 then node\<lparr>isDirty := False\<rparr> else node)"

section \<open>Record manager (record\_mgr.c)\<close>

text \<open>
  \<^verbatim>\<open>tables.h\<close> is not among the sources.  Its enumeration \<^verbatim>\<open>DataType\<close> is taken with
  the values of the assignment's header; a schema read back from a header page stores
  whatever \<^verbatim>\<open>int\<close> the page holds, so data types are \<open>int\<close>.  The sizes of \<^verbatim>\<open>int\<close>,
  \<^verbatim>\<open>float\<close> and \<^verbatim>\<open>bool\<close> are those of the usual 32-bit and 64-bit ABIs, and an \<^verbatim>\<open>int\<close> is
  stored in four bytes, least significant first, in two's complement.
\<close>

definition DT_INT :: int where "DT_INT = 0"
definition DT_STRING :: int where "DT_STRING = 1"
definition DT_FLOAT :: int where "DT_FLOAT = 2"
definition DT_BOOL :: int where "DT_BOOL = 3"

definition sizeof_int :: int where "sizeof_int = 4"
definition sizeof_float :: int where "sizeof_float = 4"
definition sizeof_bool :: int where "sizeof_bool = 1"

definition enc32 :: "int \<Rightarrow> byte list" where
  "enc32 v = map (\<lambda>k. word_of_int ((v mod 2 ^ 32) div 256 ^ k mod 256)) [0, 1, 2, 3]"

definition dec32 :: "byte list \<Rightarrow> int" where
  "dec32 bs =
     (let u = (\<Sum>k\<leftarrow>[0, 1, 2, 3]. uint (bs ! k) * 256 ^ k)
      in if u < 2 ^ 31 then u else u - 2 ^ 32)"

record RID =
  rid_page :: int
  rid_slot :: int

text \<open>\<^verbatim>\<open>Record\<close>: \<^verbatim>\<open>id\<close> and the bytes that \<^verbatim>\<open>data\<close> points to.\<close>

record Record =
  rec_id :: RID
  rec_data :: "byte list"

text \<open>
  \<^verbatim>\<open>Schema\<close>.  An attribute name is the bytes of a C string without its terminator.  The
  arrays are read at the indices below \<open>numAttr\<close>.
\<close>

record Schema =
  numAttr :: int
  attrNames :: "byte list list"
  dataTypes :: "int list"
  typeLength :: "int list"
  keySize :: int
  keyAttrs :: "int list"

datatype Value = IntV int | StringV "byte list" | FloatV "byte list" | BoolV byte

text \<open>
  \<^verbatim>\<open>TableInfo\<close>.  The expression evaluator (\<^verbatim>\<open>expr.c\<close>) is not among the sources: a scan
  condition is represented by what \<^verbatim>\<open>evalExpr\<close> computes for it on a record and a schema,
  and \<open>None\<close> is the \<^verbatim>\<open>NULL\<close> pointer.
\<close>

record TableInfo =
  pageInfo :: BM_PageHandle
  dataPool :: BM_BufferPool
  recordID :: RID
  conditionExpr :: "(Record \<Rightarrow> Schema \<Rightarrow> bool) option"
  tupleCount :: int
  freePageIndex :: int
  scanIndex :: int

text \<open>
  \<^verbatim>\<open>RM_TableData\<close>: its \<^verbatim>\<open>mgmtData\<close> is always the global \<^verbatim>\<open>tableInfo\<close>, which the
  functions below take and return as their \<open>TableInfo\<close> argument.
\<close>

record RM_TableData =
  rel_name :: string
  rel_schema :: Schema

definition MAX_BUFFER_SIZE :: int where "MAX_BUFFER_SIZE = 100"
definition ATTR_NAME_MAX_LENGTH :: nat where "ATTR_NAME_MAX_LENGTH = 15"

text \<open>The tombstone bytes \<^verbatim>\<open>'+'\<close> and \<^verbatim>\<open>'-'\<close>.\<close>

definition PLUS :: byte where "PLUS = 0x2B"
definition MINUS :: byte where "MINUS = 0x2D"

text \<open>
  Access to the page that a handle points to.  A read or a write outside the buffer is
  undefined behaviour.
\<close>

definition handle_data :: "BM_BufferPool \<Rightarrow> BM_PageHandle \<Rightarrow> page" where
  "handle_data bm page = data (frames (mgmtData bm) ! ph_frame page)"

definition load_at :: "BM_BufferPool \<Rightarrow> BM_PageHandle \<Rightarrow> int \<Rightarrow> nat \<Rightarrow> byte list outcome" where
  "load_at bm page off len =
     (if length (frames (mgmtData bm)) \<le> ph_frame page then Fault
      else if off < 0 \<or> length (handle_data bm page) < nat off + len then Fault
      else Returns (take len (drop (nat off) (handle_data bm page))))"

definition store_at :: "BM_BufferPool \<Rightarrow> BM_PageHandle \<Rightarrow> int \<Rightarrow> byte list \<Rightarrow> BM_BufferPool outcome" where
  "store_at bm page off bs =
     (let m = mgmtData bm; i = ph_frame page in
      if length (frames m) \<le> i then Fault
      else if off < 0 \<or> length (data (frames m ! i)) < nat off + length bs then Fault
      else
        Returns
          (bm\<lparr>mgmtData := m
               \<lparr>frames := (frames m)
                  [i := (frames m ! i)
                     \<lparr>data := take (nat off) (data (frames m ! i)) @ bs
                               @ drop (nat off + length bs) (data (frames m ! i))\<rparr>]\<rparr>\<rparr>))"

text \<open>\<^verbatim>\<open>memcpy(record->data + 1, src, n)\<close> into a record's buffer.\<close>

definition record_payload :: "Record \<Rightarrow> byte list \<Rightarrow> Record outcome" where
  "record_payload record bs =
     (if length (rec_data record) < 1 + length bs then Fault
      else Returns (record\<lparr>rec_data := take 1 (rec_data record) @ bs
                                          @ drop (1 + length bs) (rec_data record)\<rparr>))"

function locate_loop :: "page \<Rightarrow> int \<Rightarrow> int \<Rightarrow> int \<Rightarrow> int" where
  "locate_loop pageContent recordSize slotIndex maxSlots =
     (if slotIndex < maxSlots
      then
        (if pageContent ! nat (slotIndex * recordSize) \<noteq> PLUS then slotIndex
         else locate_loop pageContent recordSize (slotIndex + 1) maxSlots)
      else - 1)"
  by pat_completeness auto
termination
  by (relation "measure (\<lambda>(p, r, s, m). nat (m - s))") auto

declare locate_loop.simps [simp del]

definition locateEmptySlot :: "nat \<Rightarrow> page \<Rightarrow> int \<Rightarrow> int" where
  "locateEmptySlot PAGE_SIZE pageContent recordSize =
     locate_loop pageContent recordSize 0 (int PAGE_SIZE div recordSize)"

text \<open>
  The loops of \<^verbatim>\<open>getRecordSize\<close> and \<^verbatim>\<open>getAttributeOffset\<close> over the attributes, given
  as pairs of data type and type length; \<open>None\<close> is an unknown data type.
\<close>

fun size_loop :: "(int \<times> int) list \<Rightarrow> int \<Rightarrow> int option" where
  "size_loop [] sz = Some sz"
| "size_loop ((dt, len) # rest) sz =
     (if dt = DT_STRING then size_loop rest (sz + len)
      else if dt = DT_INT then size_loop rest (sz + sizeof_int)
      else if dt = DT_FLOAT then size_loop rest (sz + sizeof_float)
      else if dt = DT_BOOL then size_loop rest (sz + sizeof_bool)
      else None)"

definition attrs_upto :: "Schema \<Rightarrow> int \<Rightarrow> (int \<times> int) list" where
  "attrs_upto schema n = take (nat n) (zip (dataTypes schema) (typeLength schema))"

definition getRecordSize :: "Schema \<Rightarrow> int" where
  "getRecordSize schema =
     (case size_loop (attrs_upto schema (numAttr schema)) 0 of
        None \<Rightarrow> - 1
      | Some sz \<Rightarrow> sz + 1)"

text \<open>
  \<^verbatim>\<open>getAttributeOffset\<close> writes the offset through \<^verbatim>\<open>result\<close>: \<open>result0\<close> is what the
  caller's variable holds before the call.  It is left as it is when the attribute number
  is out of range, and an unknown data type leaves the sum of the attributes before it.
\<close>

fun offset_loop :: "(int \<times> int) list \<Rightarrow> int \<Rightarrow> RC \<times> int" where
  "offset_loop [] off = (RC_OK, off)"
| "offset_loop ((dt, len) # rest) off =
     (if dt = DT_STRING then offset_loop rest (off + len)
      else if dt = DT_INT then offset_loop rest (off + sizeof_int)
      else if dt = DT_FLOAT then offset_loop rest (off + sizeof_float)
      else if dt = DT_BOOL then offset_loop rest (off + sizeof_bool)
      else (RC_RM_COMPARE_VALUE_OF_DIFFERENT_DATATYPE, off))"

definition getAttributeOffset :: "Schema \<Rightarrow> int \<Rightarrow> int \<Rightarrow> RC \<times> int" where
  "getAttributeOffset schema attrNum result0 =
     (if attrNum < 0 \<or> attrNum \<ge> numAttr schema then (RC_ERROR, result0)
      else offset_loop (attrs_upto schema attrNum) 1)"

definition getNumTuples :: "TableInfo \<Rightarrow> int" where
  "getNumTuples mgr = tupleCount mgr"

text \<open>
  The \<^verbatim>\<open>while ((*rid).slot == -1)\<close> loop of \<^verbatim>\<open>insertRecord\<close>: the table state, the file
  system, and the page and slot of the record identifier.
\<close>

partial_function (option) find_slot_loop ::
  "nat \<Rightarrow> int \<Rightarrow> TableInfo \<Rightarrow> filesys \<Rightarrow> int \<Rightarrow> int
     \<Rightarrow> (RC \<times> TableInfo \<times> filesys \<times> int \<times> int) outcome option" where
  "find_slot_loop PAGE_SIZE recordSize mgr fs pg slot =
     (if slot \<noteq> - 1 then Some (Returns (RC_OK, mgr, fs, pg, slot))
      else
        (case unpinPage (dataPool mgr) (pageInfo mgr) of
           (rc, bm1) \<Rightarrow>
             if rc \<noteq> RC_OK then Some (Returns (rc, mgr\<lparr>dataPool := bm1\<rparr>, fs, pg, slot))
             else
               (case pinPage PAGE_SIZE bm1 (pageInfo mgr) (pg + 1) fs of
                  Fault \<Rightarrow> Some Fault
                | Diverges \<Rightarrow> Some Diverges
                | Returns (rc2, bm2, page2, fs2) \<Rightarrow>
                    if rc2 \<noteq> RC_OK
                    then Some (Returns (rc2, mgr\<lparr>dataPool := bm2, pageInfo := page2\<rparr>, fs2,
                                        pg + 1, slot))
                    else find_slot_loop PAGE_SIZE recordSize
                           (mgr\<lparr>dataPool := bm2, pageInfo := page2\<rparr>) fs2 (pg + 1)
                           (locateEmptySlot PAGE_SIZE (handle_data bm2 page2) recordSize))))"

declare find_slot_loop.simps [code]

definition insertRecord ::
  "nat \<Rightarrow> RM_TableData \<Rightarrow> TableInfo \<Rightarrow> Record \<Rightarrow> filesys
     \<Rightarrow> (RC \<times> TableInfo \<times> Record \<times> filesys) outcome" where
  "insertRecord PAGE_SIZE rel mgr record fs =
     (let recordSize = getRecordSize (rel_schema rel) in
      if recordSize \<le> 0 then Returns (RC_MEMORY_ALLOCATION_ERROR, mgr, record, fs)
      else
        (let pg = freePageIndex mgr;
             record1 = record\<lparr>rec_id := (rec_id record)\<lparr>rid_page := pg\<rparr>\<rparr>
         in case pinPage PAGE_SIZE (dataPool mgr) (pageInfo mgr) pg fs of
              Fault \<Rightarrow> Fault
            | Diverges \<Rightarrow> Diverges
            | Returns (rc, bm1, page1, fs1) \<Rightarrow>
                if rc \<noteq> RC_OK
                then Returns (rc, mgr\<lparr>dataPool := bm1, pageInfo := page1\<rparr>, record1, fs1)
                else
                  (case find_slot_loop PAGE_SIZE recordSize
                          (mgr\<lparr>dataPool := bm1, pageInfo := page1\<rparr>) fs1 pg
                          (locateEmptySlot PAGE_SIZE (handle_data bm1 page1) recordSize) of
                     None \<Rightarrow> Diverges
                   | Some Fault \<Rightarrow> Fault
                   | Some Diverges \<Rightarrow> Diverges
                   | Some (Returns (rc2, mgr2, fs2, pg2, slot2)) \<Rightarrow>
                       (let record2 = record\<lparr>rec_id := \<lparr>rid_page = pg2, rid_slot = slot2\<rparr>\<rparr> in
                        if rc2 \<noteq> RC_OK then Returns (rc2, mgr2, record2, fs2)
                        else
                          (case markDirty (dataPool mgr2) (pageInfo mgr2) of
                             (rc3, bm3) \<Rightarrow>
                               if rc3 \<noteq> RC_OK
                               then Returns (rc3, mgr2\<lparr>dataPool := snd (unpinPage bm3 (pageInfo mgr2))\<rparr>,
                                             record2, fs2)
                               else if length (rec_data record) < nat recordSize then Fault
                               else
                                 (case store_at bm3 (pageInfo mgr2) (slot2 * recordSize)
                                         (PLUS # take (nat recordSize - 1)
                                                   (drop 1 (rec_data record))) of
                                    Fault \<Rightarrow> Fault
                                  | Diverges \<Rightarrow> Diverges
                                  | Returns bm4 \<Rightarrow>
                                      (case unpinPage bm4 (pageInfo mgr2) of
                                         (rc5, bm5) \<Rightarrow>
                                           if rc5 \<noteq> RC_OK
                                           then Returns (rc5, mgr2\<lparr>dataPool := bm5\<rparr>, record2, fs2)
                                           else
                                             (let mgr6 = mgr2\<lparr>dataPool := bm5,
                                                               tupleCount := tupleCount mgr2 + 1\<rparr>
                                              in case pinPage PAGE_SIZE bm5 (pageInfo mgr6) 0 fs2 of
                                                   Fault \<Rightarrow> Fault
                                                 | Diverges \<Rightarrow> Diverges
                                                 | Returns (rc7, bm7, page7, fs7) \<Rightarrow>
                                                     Returns
                                                       (rc7,
                                                        mgr6\<lparr>dataPool := bm7, pageInfo := page7\<rparr>,
                                                        record2, fs7)))))))))"

definition deleteRecord ::
  "nat \<Rightarrow> RM_TableData \<Rightarrow> TableInfo \<Rightarrow> RID \<Rightarrow> filesys
     \<Rightarrow> (RC \<times> TableInfo \<times> filesys) outcome" where
  "deleteRecord PAGE_SIZE rel mgr rid fs =
     (case pinPage PAGE_SIZE (dataPool mgr) (pageInfo mgr) (rid_page rid) fs of
        Fault \<Rightarrow> Fault
      | Diverges \<Rightarrow> Diverges
      | Returns (rc, bm1, page1, fs1) \<Rightarrow>
          if rc \<noteq> RC_OK then Returns (rc, mgr\<lparr>dataPool := bm1, pageInfo := page1\<rparr>, fs1)
          else
            (let mgr1 = mgr\<lparr>dataPool := bm1, pageInfo := page1, freePageIndex := rid_page rid\<rparr>;
                 recordSize = getRecordSize (rel_schema rel)
             in if recordSize \<le> 0
                then Returns (RC_MEMORY_ALLOCATION_ERROR,
                              mgr1\<lparr>dataPool := snd (unpinPage bm1 page1)\<rparr>, fs1)
                else
                  (case store_at bm1 page1 (rid_slot rid * recordSize) [MINUS] of
                     Fault \<Rightarrow> Fault
                   | Diverges \<Rightarrow> Diverges
                   | Returns bm2 \<Rightarrow>
                       (case markDirty bm2 page1 of
                          (rc3, bm3) \<Rightarrow>
                            if rc3 \<noteq> RC_OK
                            then Returns (rc3, mgr1\<lparr>dataPool := snd (unpinPage bm3 page1)\<rparr>, fs1)
                            else
                              (case unpinPage bm3 page1 of
                                 (rc4, bm4) \<Rightarrow> Returns (rc4, mgr1\<lparr>dataPool := bm4\<rparr>, fs1))))))"

definition updateRecord ::
  "nat \<Rightarrow> RM_TableData \<Rightarrow> TableInfo \<Rightarrow> Record \<Rightarrow> filesys
     \<Rightarrow> (RC \<times> TableInfo \<times> filesys) outcome" where
  "updateRecord PAGE_SIZE rel mgr record fs =
     (case pinPage PAGE_SIZE (dataPool mgr) (pageInfo mgr) (rid_page (rec_id record)) fs of
        Fault \<Rightarrow> Fault
      | Diverges \<Rightarrow> Diverges
      | Returns (rc, bm1, page1, fs1) \<Rightarrow>
          if rc \<noteq> RC_OK then Returns (rc, mgr\<lparr>dataPool := bm1, pageInfo := page1\<rparr>, fs1)
          else
            (let mgr1 = mgr\<lparr>dataPool := bm1, pageInfo := page1\<rparr>;
                 recordSize = getRecordSize (rel_schema rel)
             in if recordSize \<le> 0
                then Returns (RC_MEMORY_ALLOCATION_ERROR,
                              mgr1\<lparr>dataPool := snd (unpinPage bm1 page1)\<rparr>, fs1)
                else if length (rec_data record) < nat recordSize then Fault
                else
                  (case store_at bm1 page1 (rid_slot (rec_id record) * recordSize)
                          (PLUS # take (nat recordSize - 1) (drop 1 (rec_data record))) of
                     Fault \<Rightarrow> Fault
                   | Diverges \<Rightarrow> Diverges
                   | Returns bm2 \<Rightarrow>
                       (case markDirty bm2 page1 of
                          (rc3, bm3) \<Rightarrow>
                            if rc3 \<noteq> RC_OK
                            then Returns (rc3, mgr1\<lparr>dataPool := snd (unpinPage bm3 page1)\<rparr>, fs1)
                            else
                              (case unpinPage bm3 page1 of
                                 (rc4, bm4) \<Rightarrow> Returns (rc4, mgr1\<lparr>dataPool := bm4\<rparr>, fs1))))))"

definition getRecord ::
  "nat \<Rightarrow> RM_TableData \<Rightarrow> TableInfo \<Rightarrow> RID \<Rightarrow> Record \<Rightarrow> filesys
     \<Rightarrow> (RC \<times> TableInfo \<times> Record \<times> filesys) outcome" where
  "getRecord PAGE_SIZE rel mgr rid record fs =
     (case pinPage PAGE_SIZE (dataPool mgr) (pageInfo mgr) (rid_page rid) fs of
        Fault \<Rightarrow> Fault
      | Diverges \<Rightarrow> Diverges
      | Returns (rc, bm1, page1, fs1) \<Rightarrow>
          if rc \<noteq> RC_OK
          then Returns (rc, mgr\<lparr>dataPool := bm1, pageInfo := page1\<rparr>, record, fs1)
          else
            (let mgr1 = mgr\<lparr>dataPool := bm1, pageInfo := page1\<rparr>;
                 recordSize = getRecordSize (rel_schema rel)
             in if recordSize \<le> 0
                then Returns (RC_MEMORY_ALLOCATION_ERROR,
                              mgr1\<lparr>dataPool := snd (unpinPage bm1 page1)\<rparr>, record, fs1)
                else
                  (case load_at bm1 page1 (rid_slot rid * recordSize) 1 of
                     Fault \<Rightarrow> Fault
                   | Diverges \<Rightarrow> Diverges
                   | Returns tombstone \<Rightarrow>
                       if tombstone \<noteq> [PLUS]
                       then
                         (case unpinPage bm1 page1 of
                            (rc2, bm2) \<Rightarrow>
                              Returns (if rc2 \<noteq> RC_OK then rc2 else RC_RM_NO_TUPLE_WITH_GIVEN_RID,
                                       mgr1\<lparr>dataPool := bm2\<rparr>, record, fs1))
                       else
                         (case load_at bm1 page1 (rid_slot rid * recordSize + 1)
                                 (nat recordSize - 1) of
                            Fault \<Rightarrow> Fault
                          | Diverges \<Rightarrow> Diverges
                          | Returns bytes \<Rightarrow>
                              (case record_payload (record\<lparr>rec_id := rid\<rparr>) bytes of
                                 Fault \<Rightarrow> Fault
                               | Diverges \<Rightarrow> Diverges
                               | Returns record1 \<Rightarrow>
                                   (case unpinPage bm1 page1 of
                                      (rc2, bm2) \<Rightarrow>
                                        Returns (rc2, mgr1\<lparr>dataPool := bm2\<rparr>, record1, fs1)))))))"

text \<open>
  \<^verbatim>\<open>strncpy(dst, src, n)\<close> from a C string: the bytes before the first zero byte, at most
  \<open>n\<close> of them, padded with zero bytes to \<open>n\<close>.
\<close>

definition c_string :: "byte list \<Rightarrow> byte list" where
  "c_string src = takeWhile (\<lambda>b. b \<noteq> 0) src"

definition strncpy :: "nat \<Rightarrow> byte list \<Rightarrow> byte list" where
  "strncpy n src = take n (c_string src @ replicate n 0)"

text \<open>Name, data type and type length of the attributes below \<open>numAttr\<close>.\<close>

definition attr_rows :: "Schema \<Rightarrow> (byte list \<times> int \<times> int) list" where
  "attr_rows schema =
     take (nat (numAttr schema))
       (zip (attrNames schema) (zip (dataTypes schema) (typeLength schema)))"

text \<open>The header that \<^verbatim>\<open>createTable\<close> writes at the start of \<^verbatim>\<open>pageData\<close>.\<close>

definition header_bytes :: "Schema \<Rightarrow> byte list" where
  "header_bytes schema =
     enc32 0 @ enc32 1 @ enc32 (numAttr schema) @ enc32 (keySize schema)
     @ concat (map (\<lambda>(nm, dt, len). strncpy ATTR_NAME_MAX_LENGTH nm @ enc32 dt @ enc32 len)
                 (attr_rows schema))"

text \<open>
  \<^verbatim>\<open>createTable\<close>.  \<open>stack\<close> is the indeterminate content of the local array
  \<^verbatim>\<open>pageData[PAGE_SIZE]\<close> and \<open>raw\<close> that of the \<^verbatim>\<open>TableInfo\<close> block from \<^verbatim>\<open>malloc\<close>; the
  header is written over the start of the array, and a header longer than the array is
  written past its end.  The result carries the new value of the global \<^verbatim>\<open>tableInfo\<close>.
\<close>

definition createTable ::
  "nat \<Rightarrow> byte list \<Rightarrow> TableInfo \<Rightarrow> string \<Rightarrow> Schema \<Rightarrow> filesys
     \<Rightarrow> (RC \<times> TableInfo \<times> filesys) outcome" where
  "createTable PAGE_SIZE stack raw name schema fs =
     (case initBufferPool name MAX_BUFFER_SIZE RS_LRU of
        (rc0, pool) \<Rightarrow>
          (let tableInfo = raw\<lparr>dataPool := pool\<rparr>;
               hdr = header_bytes schema
           in if length stack \<noteq> PAGE_SIZE \<or> PAGE_SIZE < length hdr then Fault
              else
                (let pageData = hdr @ drop (length hdr) stack in
                 case createPageFile PAGE_SIZE False False None fs name of
                   (rc1, fs1) \<Rightarrow>
                     if rc1 \<noteq> RC_OK then Returns (rc1, tableInfo, fs1)
                     else
                       (case openPageFile PAGE_SIZE fs1 name of
                          Inl rc2 \<Rightarrow> Returns (rc2, tableInfo, fs1)
                        | Inr fh \<Rightarrow>
                            (case writeBlock PAGE_SIZE False None 0 (Some fh) (Some pageData)
                                    (file_bytes fs1 name) of
                               (rc3, fh3, bytes3) \<Rightarrow>
                                 Returns (rc3, tableInfo,
                                          if rc3 \<noteq> RC_OK then fs1
                                          else fs1(name \<mapsto> bytes3)))))))"

text \<open>
  The second loop of \<^verbatim>\<open>openTable\<close>: attribute \<open>i\<close> is read at offset \<open>12 + 23 * i\<close> of
  the header page (the name in 15 bytes, the data type, the type length); the first
  attribute is read right after the attribute count.
\<close>

primrec read_attrs ::
  "BM_BufferPool \<Rightarrow> BM_PageHandle \<Rightarrow> int \<Rightarrow> nat
     \<Rightarrow> (byte list \<times> int \<times> int) list outcome" where
  "read_attrs bm page off 0 = Returns []"
| "read_attrs bm page off (Suc n) =
     (case load_at bm page off ATTR_NAME_MAX_LENGTH of
        Returns nm \<Rightarrow>
          (case load_at bm page (off + int ATTR_NAME_MAX_LENGTH) 4 of
             Returns dt \<Rightarrow>
               (case load_at bm page (off + int ATTR_NAME_MAX_LENGTH + sizeof_int) 4 of
                  Returns len \<Rightarrow>
                    (case read_attrs bm page
                            (off + int ATTR_NAME_MAX_LENGTH + sizeof_int + sizeof_int) n of
                       Returns rest \<Rightarrow> Returns ((c_string nm, dec32 dt, dec32 len) # rest)
                     | Fault \<Rightarrow> Fault
                     | Diverges \<Rightarrow> Diverges)
                | Fault \<Rightarrow> Fault
                | Diverges \<Rightarrow> Diverges)
           | Fault \<Rightarrow> Fault
           | Diverges \<Rightarrow> Diverges)
      | Fault \<Rightarrow> Fault
      | Diverges \<Rightarrow> Diverges)"

text \<open>
  \<^verbatim>\<open>openTable\<close>.  \<open>indet\<close> is the indeterminate content of the \<^verbatim>\<open>Schema\<close> block from
  \<^verbatim>\<open>malloc\<close>, whose key fields the function does not set.  \<^verbatim>\<open>malloc\<close> succeeds unless
  the attribute count is negative.
\<close>

definition openTable ::
  "nat \<Rightarrow> Schema \<Rightarrow> RM_TableData \<Rightarrow> TableInfo \<Rightarrow> string \<Rightarrow> filesys
     \<Rightarrow> (RC \<times> RM_TableData \<times> TableInfo \<times> filesys) outcome" where
  "openTable PAGE_SIZE indet rel tableInfo name fs =
     (let rel1 = rel\<lparr>rel_name := name\<rparr> in
      case pinPage PAGE_SIZE (dataPool tableInfo) (pageInfo tableInfo) 0 fs of
        Fault \<Rightarrow> Fault
      | Diverges \<Rightarrow> Diverges
      | Returns (rc, bm1, page1, fs1) \<Rightarrow>
          if rc \<noteq> RC_OK
          then Returns (rc, rel1, tableInfo\<lparr>dataPool := bm1, pageInfo := page1\<rparr>, fs1)
          else
            (case load_at bm1 page1 0 12 of
               Fault \<Rightarrow> Fault
             | Diverges \<Rightarrow> Diverges
             | Returns h \<Rightarrow>
                 (let t1 = tableInfo\<lparr>dataPool := bm1, pageInfo := page1,
                                      tupleCount := dec32 (take 4 h),
                                      freePageIndex := dec32 (take 4 (drop 4 h))\<rparr>;
                      attrCount = dec32 (take 4 (drop 8 h))
                  in if attrCount < 0
                     then Returns (RC_MEMORY_ALLOCATION_ERROR, rel1,
                                   t1\<lparr>dataPool := snd (unpinPage bm1 page1)\<rparr>, fs1)
                     else
                       (case read_attrs bm1 page1 12 (nat attrCount) of
                          Fault \<Rightarrow> Fault
                        | Diverges \<Rightarrow> Diverges
                        | Returns rows \<Rightarrow>
                            (let tableSchema =
                                   indet\<lparr>numAttr := attrCount,
                                         attrNames := map fst rows,
                                         dataTypes := map (\<lambda>r. fst (snd r)) rows,
                                         typeLength := map (\<lambda>r. snd (snd r)) rows\<rparr>;
                                 rel2 = rel1\<lparr>rel_schema := tableSchema\<rparr>
                             in case unpinPage bm1 page1 of
                                  (rc2, bm2) \<Rightarrow>
                                    if rc2 \<noteq> RC_OK
                                    then Returns (rc2, rel2, t1\<lparr>dataPool := bm2\<rparr>, fs1)
                                    else
                                      (case forcePage PAGE_SIZE bm2 page1 fs1 of
                                         Fault \<Rightarrow> Fault
                                       | Diverges \<Rightarrow> Diverges
                                       | Returns (rc3, bm3, fs3) \<Rightarrow>
                                           Returns (rc3, rel2, t1\<lparr>dataPool := bm3\<rparr>, fs3)))))))"

text \<open>
  \<^verbatim>\<open>createRecord\<close>.  \<open>heap\<close> is the indeterminate content of the data block from
  \<^verbatim>\<open>malloc\<close>, of \<^verbatim>\<open>recordSize\<close> bytes; the function writes its first two bytes.
\<close>

definition createRecord :: "byte list \<Rightarrow> Schema \<Rightarrow> (RC \<times> Record option) outcome" where
  "createRecord heap schema =
     (let recordSize = getRecordSize schema in
      if recordSize \<le> 0 then Returns (RC_ERROR, None)
      else if length heap \<noteq> nat recordSize \<or> recordSize < 2 then Fault
      else Returns (RC_OK,
                    Some \<lparr>rec_id = \<lparr>rid_page = - 1, rid_slot = - 1\<rparr>,
                          rec_data = MINUS # 0 # drop 2 heap\<rparr>))"

text \<open>
  \<^verbatim>\<open>getAttr\<close>, which also overwrites the data type of attribute 1 in the schema.  A
  string value is the C string that the function builds; a float value is its four bytes.
\<close>

definition getAttr :: "Record \<Rightarrow> Schema \<Rightarrow> int \<Rightarrow> (RC \<times> Schema \<times> Value option) outcome" where
  "getAttr record schema attrNum =
     (if attrNum < 0 \<or> attrNum \<ge> numAttr schema
      then Returns (RC_RM_NO_MORE_TUPLES, schema, None)
      else
        (case getAttributeOffset schema attrNum 0 of
           (rc, off) \<Rightarrow>
             if rc \<noteq> RC_OK then Returns (rc, schema, None)
             else if length (dataTypes schema) \<le> nat attrNum
                     \<or> length (typeLength schema) \<le> nat attrNum then Fault
             else
               (let schema1 = schema\<lparr>dataTypes :=
                                (dataTypes schema)
                                  [nat attrNum := (if attrNum = 1 then 1
                                                   else dataTypes schema ! nat attrNum)]\<rparr>;
                    dt = dataTypes schema1 ! nat attrNum;
                    src = drop (nat off) (rec_data record)
                in if dt = DT_STRING
                   then
                     (let len = typeLength schema1 ! nat attrNum in
                      if len < 0 \<or> length src < nat len then Fault
                      else Returns (RC_OK, schema1, Some (StringV (c_string (take (nat len) src)))))
                   else if dt = DT_INT
                   then (if length src < 4 then Fault
                         else Returns (RC_OK, schema1, Some (IntV (dec32 (take 4 src)))))
                   else if dt = DT_FLOAT
                   then (if length src < 4 then Fault
                         else Returns (RC_OK, schema1, Some (FloatV (take 4 src))))
                   else if dt = DT_BOOL
                   then (if length src < 1 then Fault
                         else Returns (RC_OK, schema1, Some (BoolV (hd src))))
                   else Returns (RC_RM_COMPARE_VALUE_OF_DIFFERENT_DATATYPE, schema1, None))))"

text \<open>
  \<^verbatim>\<open>setAttr\<close>.  The member of the value's union is chosen by the data type of the schema;
  a value of another type has no defined reading there.
\<close>

definition value_bytes :: "int \<Rightarrow> int \<Rightarrow> Value \<Rightarrow> byte list option" where
  "value_bytes dt len v =
     (case v of
        IntV i \<Rightarrow> if dt = DT_INT then Some (enc32 i) else None
      | StringV s \<Rightarrow> if dt = DT_STRING \<and> 0 \<le> len then Some (strncpy (nat len) s) else None
      | FloatV f \<Rightarrow> if dt = DT_FLOAT \<and> length f = 4 then Some f else None
      | BoolV b \<Rightarrow> if dt = DT_BOOL then Some [b] else None)"

definition setAttr :: "Record \<Rightarrow> Schema \<Rightarrow> int \<Rightarrow> Value \<Rightarrow> (RC \<times> Record) outcome" where
  "setAttr record schema attrNum v =
     (if attrNum < 0 \<or> attrNum \<ge> numAttr schema then Returns (RC_RM_NO_MORE_TUPLES, record)
      else
        (case getAttributeOffset schema attrNum 0 of
           (rc, off) \<Rightarrow>
             if rc \<noteq> RC_OK then Returns (rc, record)
             else if length (dataTypes schema) \<le> nat attrNum
                     \<or> length (typeLength schema) \<le> nat attrNum then Fault
             else
               (let dt = dataTypes schema ! nat attrNum;
                    len = typeLength schema ! nat attrNum
                in if dt \<noteq> DT_STRING \<and> dt \<noteq> DT_INT \<and> dt \<noteq> DT_FLOAT \<and> dt \<noteq> DT_BOOL
                   then Returns (RC_RM_COMPARE_VALUE_OF_DIFFERENT_DATATYPE, record)
                   else
                     (case value_bytes dt len v of
                        None \<Rightarrow> Fault
                      | Some bs \<Rightarrow>
                          if length (rec_data record) < nat off + length bs then Fault
                          else Returns (RC_OK,
                                 record\<lparr>rec_data := take (nat off) (rec_data record) @ bs
                                          @ drop (nat off + length bs) (rec_data record)\<rparr>)))))"

text \<open>
  \<^verbatim>\<open>startScan\<close>.  It re-opens the table under the name \<^verbatim>\<open>"ScanTable"\<close> and then sets
  the tuple count of the table to \<^verbatim>\<open>ATTR_NAME_MAX_LENGTH\<close>.  \<open>raw\<close> is the indeterminate
  content of the scan's \<^verbatim>\<open>TableInfo\<close> block.
\<close>

definition startScan ::
  "nat \<Rightarrow> Schema \<Rightarrow> TableInfo \<Rightarrow> RM_TableData \<Rightarrow> TableInfo \<Rightarrow> (Record \<Rightarrow> Schema \<Rightarrow> bool) option
     \<Rightarrow> filesys \<Rightarrow> (RC \<times> RM_TableData \<times> TableInfo \<times> TableInfo option \<times> filesys) outcome" where
  "startScan PAGE_SIZE indet raw rel tableInfo cond fs =
     (if cond = None then Returns (RC_SCAN_CONDITION_NOT_FOUND, rel, tableInfo, None, fs)
      else
        (case openTable PAGE_SIZE indet rel tableInfo ''ScanTable'' fs of
           Fault \<Rightarrow> Fault
         | Diverges \<Rightarrow> Diverges
         | Returns (rc, rel1, t1, fs1) \<Rightarrow>
             if rc \<noteq> RC_OK then Returns (rc, rel1, t1, None, fs1)
             else
               Returns (RC_OK, rel1, t1\<lparr>tupleCount := int ATTR_NAME_MAX_LENGTH\<rparr>,
                        Some (raw\<lparr>recordID := \<lparr>rid_page = 0, rid_slot = 0\<rparr>, scanIndex := 0,
                                   conditionExpr := cond\<rparr>),
                        fs1)))"

text \<open>
  The \<^verbatim>\<open>while (scanCount <= totalRecords)\<close> loop of \<^verbatim>\<open>next\<close> and the code behind it.
  \<open>evalExpr\<close> is the scan's condition.
\<close>

function next_loop ::
  "nat \<Rightarrow> (Record \<Rightarrow> Schema \<Rightarrow> bool) \<Rightarrow> Schema \<Rightarrow> int \<Rightarrow> int \<Rightarrow> int
     \<Rightarrow> TableInfo \<Rightarrow> TableInfo \<Rightarrow> Record \<Rightarrow> filesys \<Rightarrow> int
     \<Rightarrow> (RC \<times> TableInfo \<times> TableInfo \<times> Record \<times> filesys) outcome" where
  "next_loop PAGE_SIZE evalExpr schema recordSize slotsPerPage totalRecords
       relInfo scanInfo record fs scanCount =
     (if scanCount \<le> totalRecords
      then
        (let rid0 = recordID scanInfo;
             rid = (if scanCount \<le> 0 then \<lparr>rid_page = 1, rid_slot = 0\<rparr>
                    else if rid_slot rid0 + 1 \<ge> slotsPerPage
                    then \<lparr>rid_page = rid_page rid0 + 1, rid_slot = 0\<rparr>
                    else \<lparr>rid_page = rid_page rid0, rid_slot = rid_slot rid0 + 1\<rparr>)
         in case pinPage PAGE_SIZE (dataPool relInfo) (pageInfo scanInfo) (rid_page rid) fs of
              Fault \<Rightarrow> Fault
            | Diverges \<Rightarrow> Diverges
            | Returns (rc, bm1, page1, fs1) \<Rightarrow>
                (let relInfo1 = relInfo\<lparr>dataPool := bm1\<rparr>;
                     scanInfo1 = scanInfo\<lparr>recordID := rid, pageInfo := page1\<rparr>
                 in if rc \<noteq> RC_OK then Returns (rc, relInfo1, scanInfo1, record, fs1)
                    else if rec_data record = [] then Fault
                    else
                      (case load_at bm1 page1 (rid_slot rid * recordSize + 1)
                              (nat recordSize - 1) of
                         Fault \<Rightarrow> Fault
                       | Diverges \<Rightarrow> Diverges
                       | Returns bytes \<Rightarrow>
                           (case record_payload
                                   (record\<lparr>rec_id := rid,
                                           rec_data := MINUS # tl (rec_data record)\<rparr>) bytes of
                              Fault \<Rightarrow> Fault
                            | Diverges \<Rightarrow> Diverges
                            | Returns record1 \<Rightarrow>
                                (let scanInfo2 = scanInfo1\<lparr>scanIndex := scanIndex scanInfo1 + 1\<rparr>
                                 in if evalExpr record1 schema
                                    then
                                      (case unpinPage bm1 page1 of
                                         (rc2, bm2) \<Rightarrow>
                                           Returns (rc2, relInfo1\<lparr>dataPool := bm2\<rparr>, scanInfo2,
                                                    record1, fs1))
                                    else next_loop PAGE_SIZE evalExpr schema recordSize
                                           slotsPerPage totalRecords relInfo1 scanInfo2 record1
                                           fs1 (scanCount + 1))))))
      else
        (case unpinPage (dataPool relInfo) (pageInfo scanInfo) of
           (rc, bm1) \<Rightarrow>
             if rc \<noteq> RC_OK then Returns (rc, relInfo\<lparr>dataPool := bm1\<rparr>, scanInfo, record, fs)
             else Returns (RC_RM_NO_MORE_TUPLES, relInfo\<lparr>dataPool := bm1\<rparr>,
                           scanInfo\<lparr>recordID := \<lparr>rid_page = 1, rid_slot = 0\<rparr>, scanIndex := 0\<rparr>,
                           record, fs)))"
  by pat_completeness auto
termination
  by (relation "measure (\<lambda>(PAGE_SIZE, evalExpr, schema, recordSize, slotsPerPage, totalRecords,
                            relInfo, scanInfo, record, fs, scanCount).
                   nat (totalRecords + 1 - scanCount))") auto

declare next_loop.simps [simp del]

text \<open>\<^verbatim>\<open>next\<close> on a scan of the table \<open>rel\<close> with the table state \<open>relInfo\<close>.\<close>

definition next_tuple ::
  "nat \<Rightarrow> RM_TableData \<Rightarrow> TableInfo \<Rightarrow> TableInfo \<Rightarrow> Record \<Rightarrow> filesys
     \<Rightarrow> (RC \<times> TableInfo \<times> TableInfo \<times> Record \<times> filesys) outcome" where
  "next_tuple PAGE_SIZE rel relInfo scanInfo record fs =
     (case conditionExpr scanInfo of
        None \<Rightarrow> Returns (RC_SCAN_CONDITION_NOT_FOUND, relInfo, scanInfo, record, fs)
      | Some evalExpr \<Rightarrow>
          (let recordSize = getRecordSize (rel_schema rel) in
           if recordSize \<le> 0 then Returns (RC_ERROR, relInfo, scanInfo, record, fs)
           else if tupleCount relInfo = 0
           then Returns (RC_RM_NO_MORE_TUPLES, relInfo, scanInfo, record, fs)
           else next_loop PAGE_SIZE evalExpr (rel_schema rel) recordSize
                  (int PAGE_SIZE div recordSize) (tupleCount relInfo) relInfo scanInfo record fs
                  (scanIndex scanInfo)))"

text \<open>The frames up to their access counts, and the sum of the pin counts of a pool.\<close>

definition strip_access :: "DLNode list \<Rightarrow> DLNode list" where
  "strip_access fs = map (\<lambda>n. n\<lparr>accessCount := 0\<rparr>) fs"

definition pin_sum :: "BM_BufferPool \<Rightarrow> int" where
  "pin_sum bm = sum_list (map pinCount (frames (mgmtData bm)))"

section \<open>Scenarios\<close>

text \<open>
  Clients of the record manager, used to state scenarios: a call is followed by the next
  one when it returns, and a return code other than \<open>RC_OK\<close> ends the run as \<open>Fault\<close>.
  The indeterminate memory that \<^verbatim>\<open>createTable\<close>, \<^verbatim>\<open>openTable\<close>, \<^verbatim>\<open>startScan\<close> and
  \<^verbatim>\<open>createRecord\<close> leave unwritten is zero here.
\<close>

definition and_then :: "'a outcome \<Rightarrow> ('a \<Rightarrow> 'b outcome) \<Rightarrow> 'b outcome" where
  "and_then m f = (case m of Returns a \<Rightarrow> f a | Fault \<Rightarrow> Fault | Diverges \<Rightarrow> Diverges)"

text \<open>
  The scan condition \<^verbatim>\<open>id == c\<close> on attribute 0, as the evaluator computes it with
  \<^verbatim>\<open>getAttr\<close>.
\<close>

definition id_equals :: "int \<Rightarrow> Record \<Rightarrow> Schema \<Rightarrow> bool" where
  "id_equals c record schema =
     (case getAttr record schema 0 of
        Returns (rc, schema', Some (IntV v)) \<Rightarrow> rc = RC_OK \<and> v = c
      | _ \<Rightarrow> False)"

text \<open>The schema with the one attribute \<^verbatim>\<open>id\<close> of type \<^verbatim>\<open>DT_INT\<close>.\<close>

definition id_schema :: Schema where
  "id_schema = \<lparr>numAttr = 1, attrNames = [[0x69, 0x64]], dataTypes = [DT_INT],
                 typeLength = [0], keySize = 1, keyAttrs = [0]\<rparr>"

definition blank_schema :: Schema where
  "blank_schema = \<lparr>numAttr = 0, attrNames = [], dataTypes = [], typeLength = [], keySize = 0, keyAttrs = []\<rparr>"

definition blank_table :: TableInfo where
  "blank_table = \<lparr>pageInfo = \<lparr>ph_pageNum = 0, ph_frame = 0\<rparr>,
                   dataPool = snd (initBufferPool [] 0 RS_FIFO),
                   recordID = \<lparr>rid_page = 0, rid_slot = 0\<rparr>, conditionExpr = None,
                   tupleCount = 0, freePageIndex = 0, scanIndex = 0\<rparr>"

text \<open>\<^verbatim>\<open>createTable\<close> and \<^verbatim>\<open>openTable\<close> of a table \<^verbatim>\<open>"t"\<close> with that schema.\<close>

definition new_table :: "nat \<Rightarrow> (RM_TableData \<times> TableInfo \<times> filesys) outcome" where
  "new_table PAGE_SIZE =
     and_then (createTable PAGE_SIZE (zeroes PAGE_SIZE) blank_table ''t'' id_schema Map.empty)
       (\<lambda>(rc, ti, fs). if rc \<noteq> RC_OK then Fault else
     and_then (openTable PAGE_SIZE blank_schema \<lparr>rel_name = [], rel_schema = blank_schema\<rparr> ti ''t'' fs)
       (\<lambda>(rc, rel, ti, fs). if rc \<noteq> RC_OK then Fault else Returns (rel, ti, fs)))"

text \<open>\<^verbatim>\<open>createRecord\<close>, \<^verbatim>\<open>setAttr\<close> of the id, and \<^verbatim>\<open>insertRecord\<close>.\<close>

definition insert_id :: "nat \<Rightarrow> RM_TableData \<Rightarrow> int \<Rightarrow> TableInfo \<times> filesys \<Rightarrow> (TableInfo \<times> filesys) outcome" where
  "insert_id PAGE_SIZE rel v st =
     and_then (createRecord (zeroes 5) id_schema)
       (\<lambda>(rc, r). case r of None \<Rightarrow> Fault | Some record \<Rightarrow>
     and_then (setAttr record id_schema 0 (IntV v))
       (\<lambda>(rc, record). if rc \<noteq> RC_OK then Fault else
     and_then (insertRecord PAGE_SIZE rel (fst st) record (snd st))
       (\<lambda>(rc, ti, record, fs). if rc \<noteq> RC_OK then Fault else Returns (ti, fs))))"

text \<open>The new table after the rows with id 1, 2 and 3 have been inserted in this order.\<close>

definition three_rows :: "nat \<Rightarrow> (RM_TableData \<times> TableInfo \<times> filesys) outcome" where
  "three_rows PAGE_SIZE =
     and_then (new_table PAGE_SIZE) (\<lambda>(rel, ti, fs).
     and_then (insert_id PAGE_SIZE rel 1 (ti, fs)) (\<lambda>st.
     and_then (insert_id PAGE_SIZE rel 2 st) (\<lambda>st.
     and_then (insert_id PAGE_SIZE rel 3 st) (\<lambda>(ti, fs). Returns (rel, ti, fs)))))"

text \<open>
  The table with the rows 1, 2 and 3 after a fourth row, again with id 2, has been
  inserted and then deleted: \<^verbatim>\<open>insertRecord\<close> puts it into slot 3 of page 1, and
  \<^verbatim>\<open>deleteRecord\<close> of that slot returns \<open>RC_OK\<close>.
\<close>

definition fourth_row_deleted :: "nat \<Rightarrow> (RM_TableData \<times> TableInfo \<times> filesys) outcome" where
  "fourth_row_deleted PAGE_SIZE =
     and_then (three_rows PAGE_SIZE) (\<lambda>(rel, ti, fs).
     and_then (insert_id PAGE_SIZE rel 2 (ti, fs)) (\<lambda>(ti, fs).
     and_then (deleteRecord PAGE_SIZE rel ti \<lparr>rid_page = 1, rid_slot = 3\<rparr> fs)
       (\<lambda>(rc, ti, fs). if rc \<noteq> RC_OK then Fault else Returns (rel, ti, fs))))"

section \<open>The pages as the clients of a pool see them\<close>

text \<open>
  Page \<open>q\<close> of a file that is read through \<^verbatim>\<open>pinPage\<close>: \<^verbatim>\<open>ensureCapacity\<close> appends zero
  pages up to the page asked for, so a page past the end of the file reads as zeroes.
\<close>

definition file_page :: "nat \<Rightarrow> byte list \<Rightarrow> int \<Rightarrow> page" where
  "file_page PAGE_SIZE bytes q = take PAGE_SIZE (drop (nat q * PAGE_SIZE) bytes @ zeroes PAGE_SIZE)"

text \<open>
  The content of page \<open>q\<close> for a client of the pool: the buffer of the frame that holds
  the page, and the page of the file when no frame holds it.
\<close>

definition page_view :: "nat \<Rightarrow> BM_BufferPool \<Rightarrow> filesys \<Rightarrow> int \<Rightarrow> page" where
  "page_view PAGE_SIZE bm fs q =
     (if q < 0 then []
      else
        (case findPage (mgmtData bm) q of
           Some i \<Rightarrow> data (frames (mgmtData bm) ! i)
         | None \<Rightarrow> file_page PAGE_SIZE (file_bytes fs (pageFile bm)) q))"

text \<open>
  A frame in a state that \<^verbatim>\<open>pinPage\<close> leaves it in: its buffer has \<open>PAGE_SIZE\<close> bytes, its
  page lies inside the file, its pin count is not negative, and unless it is marked dirty
  its buffer equals the page of the file.
\<close>

definition frame_ok :: "nat \<Rightarrow> byte list \<Rightarrow> DLNode \<Rightarrow> bool" where
  "frame_ok PAGE_SIZE bytes node \<longleftrightarrow>
     length (data node) = PAGE_SIZE \<and> 0 \<le> pageNum node
     \<and> nat (pageNum node) * PAGE_SIZE + PAGE_SIZE \<le> length bytes
     \<and> 0 \<le> pinCount node
     \<and> (isDirty node \<or> data node = page_of PAGE_SIZE bytes (pageNum node))"

text \<open>
  A pool in a state that the operations of the buffer manager leave it in: the page file
  exists and consists of whole pages, every frame is as above, and no two frames hold the
  same page.
\<close>

definition pool_ok :: "nat \<Rightarrow> BM_BufferPool \<Rightarrow> filesys \<Rightarrow> bool" where
  "pool_ok PAGE_SIZE bm fs \<longleftrightarrow>
     0 < PAGE_SIZE \<and> fs (pageFile bm) \<noteq> None
     \<and> length (file_bytes fs (pageFile bm)) mod PAGE_SIZE = 0
     \<and> list_all (frame_ok PAGE_SIZE (file_bytes fs (pageFile bm))) (frames (mgmtData bm))
     \<and> distinct (map pageNum (frames (mgmtData bm)))"

text \<open>
  A handle as \<^verbatim>\<open>pinPage\<close> returns it for page \<open>pn\<close>: it points to the frame that holds the
  page, and that frame is pinned.
\<close>

definition handle_on :: "BM_BufferPool \<Rightarrow> BM_PageHandle \<Rightarrow> int \<Rightarrow> bool" where
  "handle_on bm page pn \<longleftrightarrow>
     ph_pageNum page = pn \<and> findPage (mgmtData bm) pn = Some (ph_frame page)
     \<and> 0 < pinCount (frames (mgmtData bm) ! ph_frame page)"

section \<open>Storage manager: properties\<close>

lemma length_fwrite_at:
  "off + length buf \<le> length bytes \<Longrightarrow> length (fwrite_at off buf bytes) = length bytes"
  by (simp add: fwrite_at_def zeroes_def)

lemma fwrite_at_page:
  "off + length buf \<le> length bytes \<Longrightarrow>
     take (length buf) (drop off (fwrite_at off buf bytes)) = buf"
  by (simp add: fwrite_at_def zeroes_def)

lemma fwrite_at_other:
  assumes "off + length buf \<le> length bytes" "i < length bytes" "i < off \<or> off + length buf \<le> i"
  shows "fwrite_at off buf bytes ! i = bytes ! i"
proof (cases "i < off")
  case True
  with assms show ?thesis by (simp add: fwrite_at_def zeroes_def nth_append)
next
  case False
  with assms have ge: "off + length buf \<le> i" by simp
  then have "\<not> i - off < length buf" and "off + length buf + (i - off - length buf) = i"
    by arith+
  with assms False ge show ?thesis
    by (simp add: fwrite_at_def zeroes_def nth_append)
qed




section \<open>Buffer manager: properties\<close>

lemmas sm_defs = openPageFile_def ensureCapacity_def readBlock_def writeBlock_def
  validate_read_def fread_at_def fwrite_at_def file_bytes_def createPageFile_def

lemmas bm_defs = pinPage_def pin_resident_def pin_new_frame_def pin_replace_def
  select_victim_def replaceCLOCK_def replaceFIFO_def replaceLRU_def replaceLFU_def
  findPage_def unpinPage_def markDirty_def fetch_page_def createNode_def initBufferPool_def
  next_node_def c_rem_def getFrameContents_def getFixCounts_def NO_PAGE_def sprintf_Page_def

text \<open>
  C3: a pool of three frames under CLOCK over a fresh page file (\<open>PAGE_SIZE = 4096\<close>).
  Pages 1, 2 and 3 are loaded (pinned and unpinned): the frames hold [1, 2, 3], every
  access count is 1 and every pin count is 0.  In this state \<^verbatim>\<open>replaceCLOCK\<close> returns the
  first frame (page 1) after it has cleared the three access counts, with the hand at 1;
  and the pin of page 4 returns \<open>RC_OK\<close> with the frames [4, 2, 3], the new page pinned in
  the first frame, and the hand at 1.
\<close>

theorem clock_second_chance_scenario:
  "(case pin_unpin_all 4096 [1, 2, 3] (snd (initBufferPool ''f'' 3 RS_CLOCK))
           (snd (createPageFile 4096 False False None Map.empty ''f'')) of
      Returns (bm, fs) \<Rightarrow>
        map accessCount (frames (mgmtData bm)) = [1, 1, 1]
        \<and> getFixCounts bm = [0, 0, 0]
        \<and> getFrameContents bm = [1, 2, 3]
        \<and> clockHand (mgmtData bm) = 0
        \<and> (case replaceCLOCK (mgmtData bm) of
              Returns (v, m) \<Rightarrow>
                v = Some 0 \<and> map accessCount (frames m) = [0, 0, 0] \<and> clockHand m = 1
            | Fault \<Rightarrow> False
            | Diverges \<Rightarrow> False)
        \<and> (case pinPage 4096 bm \<lparr>ph_pageNum = NO_PAGE, ph_frame = 0\<rparr> 4 fs of
              Returns (rc, bm', page', fs') \<Rightarrow>
                rc = RC_OK \<and> getFrameContents bm' = [4, 2, 3]
                \<and> getFixCounts bm' = [1, 0, 0]
                \<and> clockHand (mgmtData bm') = 1
                \<and> page' = \<lparr>ph_pageNum = 4, ph_frame = 0\<rparr>
            | Fault \<Rightarrow> False
            | Diverges \<Rightarrow> False)
    | Fault \<Rightarrow> False
    | Diverges \<Rightarrow> False)"
  by (simp add: bm_defs sm_defs zeroes_def clock_loop.simps Let_def)

lemma all_pinned_step:
  assumes a: "all_pinned m cur"
  defines "node \<equiv> frames m ! cur"
  defines "fs \<equiv> (if accessCount node > 0 then (frames m)[cur := node\<lparr>accessCount := 0\<rparr>] else frames m)"
  shows "all_pinned (m\<lparr>frames := fs, clockHand := h\<rparr>) (next_node fs cur)"
proof -
  from a have pn: "pinCount node \<noteq> 0" by (simp add: node_def all_pinned_def)
  have len: "length fs = length (frames m)" by (simp add: fs_def)
  have "\<forall>n \<in> set fs. pinCount n \<noteq> 0"
  proof
    fix n assume "n \<in> set fs"
    then have "n \<in> set (frames m) \<or> n = node\<lparr>accessCount := 0\<rparr>"
      unfolding fs_def
      by (auto split: if_splits dest: set_update_subset_insert [THEN subsetD])
    with a pn show "pinCount n \<noteq> 0" by (auto simp: all_pinned_def)
  qed
  moreover have "next_node fs cur < length fs"
    using a len by (auto simp: next_node_def all_pinned_def)
  moreover have "totalFrames m \<noteq> 0" using a by (simp add: all_pinned_def)
  ultimately show ?thesis by (simp add: all_pinned_def)
qed

lemma clock_loop_pinned_aux:
  "clock_loop m cur = Some y \<Longrightarrow> \<not> all_pinned m cur"
proof (rule clock_loop.raw_induct [where P = "\<lambda>m cur y. \<not> all_pinned m cur"], goal_cases)
  case (1 f m cur y)
  show ?case
  proof
    assume a: "all_pinned m cur"
    then have g: "\<not> (length (frames m) \<le> cur \<or> totalFrames m = 0)"
      and pn: "pinCount (frames m ! cur) \<noteq> 0"
      by (auto simp: all_pinned_def)
    from 1(3) g pn obtain m' cur' where rec: "f m' cur' = Some y"
        and m': "m' = m\<lparr>frames := (if accessCount (frames m ! cur) > 0 then (frames m)[cur := (frames m ! cur)\<lparr>accessCount := 0\<rparr>] else frames m),
                         clockHand := c_rem (clockHand m + 1) (totalFrames m)\<rparr>"
        and cur': "cur' = next_node (if accessCount (frames m ! cur) > 0 then (frames m)[cur := (frames m ! cur)\<lparr>accessCount := 0\<rparr>] else frames m) cur"
      by (simp add: Let_def)
    from all_pinned_step [OF a] have "all_pinned m' cur'" unfolding m' cur' .
    with 1(2) [OF rec] show False by simp
  qed
qed

lemma clock_loop_all_pinned:
  assumes "\<forall>n \<in> set (frames m). pinCount n \<noteq> 0" "cur < length (frames m)" "totalFrames m \<noteq> 0"
  shows "clock_loop m cur = None"
proof (cases "clock_loop m cur")
  case None
  then show ?thesis .
next
  case (Some y)
  from clock_loop_pinned_aux [OF Some] assms show ?thesis by (simp add: all_pinned_def)
qed

lemma clock_seek_less: "fs \<noteq> [] \<Longrightarrow> clock_seek fs k < length fs"
  by (induction k) (auto simp: next_node_def)

lemma replaceCLOCK_all_pinned:
  assumes "frames m \<noteq> []" "\<forall>n \<in> set (frames m). pinCount n \<noteq> 0" "totalFrames m \<noteq> 0"
  shows "replaceCLOCK m = Diverges"
  using assms clock_loop_all_pinned [OF assms(2) clock_seek_less [OF assms(1)] assms(3)]
  by (simp add: replaceCLOCK_def)

lemma fifo_loop_all_pinned:
  "\<forall>n \<in> set fs. pinCount n \<noteq> 0 \<Longrightarrow> fifo_loop fs s c = None"
proof (induction fs s c rule: fifo_loop.induct)
  case (1 fs s c)
  show ?case
  proof (cases "length fs \<le> c \<or> length fs \<le> s")
    case True
    then show ?thesis by (subst fifo_loop.simps) simp
  next
    case False
    then have "pinCount (fs ! c) \<noteq> 0" using 1(2) by simp
    with False 1 show ?thesis by (subst fifo_loop.simps) simp
  qed
qed

lemma lru_loop_all_pinned:
  "\<forall>n \<in> set fs. pinCount n \<noteq> 0 \<Longrightarrow> lru_loop fs i v a = v"
  by (induction fs arbitrary: i v a) auto

lemma lfu_loop_all_pinned:
  "\<forall>n \<in> set fs. pinCount n \<noteq> 0 \<Longrightarrow> lfu_loop fs i v a b = v"
  by (induction fs arbitrary: i v a b) auto

text \<open>
  A full pool in which every frame is pinned, and a page that is not resident: under FIFO,
  LRU and LFU the victim selection returns no frame and \<^verbatim>\<open>pinPage\<close> returns \<open>RC_ERROR\<close>,
  leaving the frames, the handle and the file system as they were.
\<close>

lemma pinPage_all_pinned_siblings:
  assumes full: "\<not> numFramesUsed (mgmtData bm) < totalFrames (mgmtData bm)"
    and absent: "findPage (mgmtData bm) pn = None"
    and pinned: "\<forall>n \<in> set (frames (mgmtData bm)). pinCount n > 0"
    and ne: "frames (mgmtData bm) \<noteq> []"
    and fh: "\<forall>s. fifoHead (mgmtData bm) = Some s \<longrightarrow> s < length (frames (mgmtData bm))"
    and strat: "strategy bm \<in> {RS_FIFO, RS_LRU, RS_LFU}"
  shows "\<exists>bm'. pinPage PAGE_SIZE bm page pn fs = Returns (RC_ERROR, bm', page, fs)
           \<and> frames (mgmtData bm') = frames (mgmtData bm)"
proof -
  from pinned have p: "\<forall>n \<in> set (frames (mgmtData bm)). pinCount n \<noteq> 0" by auto
  from strat consider "strategy bm = RS_FIFO" | "strategy bm = RS_LRU" | "strategy bm = RS_LFU" by auto
  then show ?thesis
  proof cases
    case 1
    with full absent p ne fh show ?thesis
      by (cases "fifoHead (mgmtData bm)")
         (auto simp: pinPage_def select_victim_def replaceFIFO_def pin_replace_def
            fifo_loop_all_pinned Let_def)
  next
    case 2
    with full absent p show ?thesis
      by (simp add: pinPage_def select_victim_def replaceLRU_def pin_replace_def lru_loop_all_pinned)
  next
    case 3
    with full absent p show ?thesis
      by (simp add: pinPage_def select_victim_def replaceLFU_def pin_replace_def lfu_loop_all_pinned)
  qed
qed

text \<open>
  C1 (the code departs from the claim): in the same state under CLOCK, the
  \<^verbatim>\<open>while (true)\<close> loop of \<^verbatim>\<open>replaceCLOCK\<close> never returns, since it returns only at a
  frame with pin count 0; \<^verbatim>\<open>pinPage\<close> does not return an error, it does not return.
\<close>

theorem pinPage_clock_all_pinned_diverges:
  assumes "strategy bm = RS_CLOCK"
    and "\<not> numFramesUsed (mgmtData bm) < totalFrames (mgmtData bm)"
    and "findPage (mgmtData bm) pn = None"
    and "\<forall>n \<in> set (frames (mgmtData bm)). pinCount n > 0"
    and "frames (mgmtData bm) \<noteq> []"
    and "totalFrames (mgmtData bm) \<noteq> 0"
  shows "pinPage PAGE_SIZE bm page pn fs = Diverges"
proof -
  from assms(4) have "\<forall>n \<in> set (frames (mgmtData bm)). pinCount n \<noteq> 0" by auto
  from replaceCLOCK_all_pinned [OF assms(5) this assms(6)] assms(1,2,3)
  show ?thesis by (simp add: pinPage_def select_victim_def)
qed

text \<open>
  The failing input: a CLOCK pool of one frame (\<open>PAGE_SIZE = 4096\<close>) in which page 0 has
  been pinned and not unpinned; the pin of page 1 does not return.
\<close>

theorem pinPage_clock_all_pinned_witness:
  "(case pinPage 4096 (snd (initBufferPool ''f'' 1 RS_CLOCK))
          \<lparr>ph_pageNum = NO_PAGE, ph_frame = 0\<rparr> 0 (snd (createPageFile 4096 False False None Map.empty ''f'')) of
      Returns (rc, bm, page, fs) \<Rightarrow>
        rc = RC_OK \<and> getFrameContents bm = [0] \<and> getFixCounts bm = [1]
        \<and> pinPage 4096 bm page 1 fs = Diverges
    | Fault \<Rightarrow> False
    | Diverges \<Rightarrow> False)"
proof -
  let ?bm = "\<lparr>pageFile = ''f'', numPages = 1, strategy = RS_CLOCK,
     mgmtData = \<lparr>frames = [\<lparr>data = zeroes 4096, pageNum = 0, isDirty = False,
              pinCount = 1, accessCount = 1, lastAccessed = 1\<rparr>],
          fifoHead = Some 0, numFramesUsed = 1, totalFrames = 1,
          readCount = 1, writeCount = 0, clockHand = 0, globalTimer = 1\<rparr>\<rparr>"
  have 1: "pinPage 4096 (snd (initBufferPool ''f'' 1 RS_CLOCK))
          \<lparr>ph_pageNum = NO_PAGE, ph_frame = 0\<rparr> 0 (snd (createPageFile 4096 False False None Map.empty ''f''))
     = Returns (RC_OK, ?bm, \<lparr>ph_pageNum = 0, ph_frame = 0\<rparr>, (Map.empty(''f'' \<mapsto> zeroes 4096)))"
    by (simp add: bm_defs sm_defs zeroes_def Let_def)
  have 2: "pinPage 4096 ?bm \<lparr>ph_pageNum = 0, ph_frame = 0\<rparr> 1 (Map.empty(''f'' \<mapsto> zeroes 4096)) = Diverges"
    by (rule pinPage_clock_all_pinned_diverges) (simp_all add: findPage_def)
  show ?thesis
    unfolding 1 using 2 by (simp add: getFrameContents_def getFixCounts_def)
qed

lemma pages_of_whole_file:
  assumes "0 < PAGE_SIZE"
  shows "(int (k * PAGE_SIZE) + int PAGE_SIZE - 1) div int PAGE_SIZE = int k"
proof -
  have "(int (k * PAGE_SIZE) + int PAGE_SIZE - 1) = int k * int PAGE_SIZE + (int PAGE_SIZE - 1)"
    by simp
  also have "\<dots> div int PAGE_SIZE = int k + (int PAGE_SIZE - 1) div int PAGE_SIZE"
    using assms by (subst div_mult_self3) auto
  also have "(int PAGE_SIZE - 1) div int PAGE_SIZE = 0"
    using assms by (intro div_pos_pos_trivial) auto
  finally show ?thesis by simp
qed

lemma openPageFile_whole:
  assumes "0 < PAGE_SIZE" "fs name = Some bytes" "length bytes = k * PAGE_SIZE"
  shows "openPageFile PAGE_SIZE fs name =
           Inr \<lparr>fileName = name, totalNumPages = int k, curPagePos = 0\<rparr>"
  using assms pages_of_whole_file [OF assms(1), of k] by (simp add: openPageFile_def)

lemma fetch_page_beyond:
  assumes ps: "0 < PAGE_SIZE" and whole: "length bytes = k * PAGE_SIZE" and kn: "k \<le> n"
    and tot: "totalNumPages fh = int k"
  shows "fetch_page PAGE_SIZE (int n) fh (zeroes PAGE_SIZE) bytes =
           Returns (RC_OK, zeroes PAGE_SIZE, bytes @ zeroes ((Suc n - k) * PAGE_SIZE))"
proof -
  have needed: "nat (int n + 1 - int k) = Suc n - k" using kn by simp
  have ec: "ensureCapacity PAGE_SIZE False (int n + 1) (Some fh) bytes =
              (RC_OK, Some (fh\<lparr>totalNumPages := int n + 1\<rparr>),
               bytes @ zeroes ((Suc n - k) * PAGE_SIZE))"
    using kn tot needed by (simp add: ensureCapacity_def Let_def)
  have "n * PAGE_SIZE - k * PAGE_SIZE = (n - k) * PAGE_SIZE"
    by (simp add: diff_mult_distrib)
  moreover have "(Suc n - k) * PAGE_SIZE - (n - k) * PAGE_SIZE = PAGE_SIZE"
    using kn by (simp add: diff_mult_distrib[symmetric] Suc_diff_le)
  moreover have "k * PAGE_SIZE \<le> n * PAGE_SIZE" using kn by simp
  ultimately have rd: "fread_at (n * PAGE_SIZE) PAGE_SIZE (bytes @ zeroes ((Suc n - k) * PAGE_SIZE))
               (zeroes PAGE_SIZE) = (True, zeroes PAGE_SIZE)"
    using whole by (simp add: fread_at_def zeroes_def Let_def)
  have rb: "readBlock PAGE_SIZE False False (int n) (Some (fh\<lparr>totalNumPages := int n + 1\<rparr>))
              (Some (zeroes PAGE_SIZE)) (bytes @ zeroes ((Suc n - k) * PAGE_SIZE)) =
            (RC_OK, Some (fh\<lparr>totalNumPages := int n + 1, curPagePos := int n\<rparr>), Some (zeroes PAGE_SIZE))"
    using rd by (simp add: readBlock_def validate_read_def Let_def)
  show ?thesis
    by (simp add: fetch_page_def ec rb)
qed

lemma page_text_not_zero:
  assumes "0 < PAGE_SIZE"
  shows "zeroes PAGE_SIZE \<noteq> page_text pn @ rest"
proof
  assume "zeroes PAGE_SIZE = page_text pn @ rest"
  then have "hd (zeroes PAGE_SIZE) = hd (page_text pn @ rest)" by simp
  moreover have "hd (zeroes PAGE_SIZE) = 0" using assms by (cases PAGE_SIZE) (simp_all add: zeroes_def)
  moreover have "hd (page_text pn @ rest) = 0x50" by (simp add: page_text_def)
  ultimately show False by simp
qed

text \<open>
  C7 (the code departs from the claim): a pin of page \<open>pn\<close> that lies beyond the extent of
  the file (made of \<open>k \<le> pn\<close> whole pages), into a pool with a free frame.  \<^verbatim>\<open>pinPage\<close>
  returns \<open>RC_OK\<close>, the file is extended with zero pages up to page \<open>pn\<close>, and the new
  frame is pinned once.  Its buffer is \<open>PAGE_SIZE\<close> zero bytes, read back from the page that
  \<^verbatim>\<open>ensureCapacity\<close> has just appended; it is not the text \<^verbatim>\<open>"Page-<pn>"\<close>: after
  \<^verbatim>\<open>ensureCapacity(pageNum + 1, &fh)\<close> the test \<^verbatim>\<open>pageNum < fh.totalNumPages\<close> always
  holds, so the \<^verbatim>\<open>sprintf\<close> branch for a page that does not exist is never taken.
\<close>

theorem pinPage_beyond_extent_zero_filled:
  assumes ps: "0 < PAGE_SIZE"
    and fl: "fs (pageFile bm) = Some bytes"
    and whole: "length bytes = k * PAGE_SIZE"
    and beyond: "int k \<le> pn"
    and absent: "findPage (mgmtData bm) pn = None"
    and free: "numFramesUsed (mgmtData bm) < totalFrames (mgmtData bm)"
  shows "\<exists>bm' page'.
           pinPage PAGE_SIZE bm page pn fs =
             Returns (RC_OK, bm', page',
                      fs(pageFile bm \<mapsto> bytes @ zeroes ((Suc (nat pn) - k) * PAGE_SIZE)))
           \<and> page' = \<lparr>ph_pageNum = pn, ph_frame = length (frames (mgmtData bm))\<rparr>
           \<and> frames (mgmtData bm') =
               frames (mgmtData bm) @
                 [\<lparr>data = zeroes PAGE_SIZE, pageNum = pn, isDirty = False, pinCount = 1,
                   accessCount = 1, lastAccessed = globalTimer (mgmtData bm) + 1\<rparr>]
           \<and> data (frames (mgmtData bm') ! ph_frame page') = zeroes PAGE_SIZE
           \<and> data (frames (mgmtData bm') ! ph_frame page')
               \<noteq> page_text pn @ zeroes (PAGE_SIZE - length (page_text pn))"
proof -
  obtain n where n: "pn = int n" and kn: "k \<le> n"
  proof -
    from beyond have "0 \<le> pn" by linarith
    then have "pn = int (nat pn)" by simp
    moreover from beyond have "k \<le> nat pn" by linarith
    ultimately show ?thesis using that by blast
  qed
  have op: "openPageFile PAGE_SIZE fs (pageFile bm) =
              Inr \<lparr>fileName = pageFile bm, totalNumPages = int k, curPagePos = 0\<rparr>"
    using ps fl whole by (rule openPageFile_whole)
  have fb: "file_bytes fs (pageFile bm) = bytes" using fl by (simp add: file_bytes_def)
  have fp: "fetch_page PAGE_SIZE (int n) \<lparr>fileName = pageFile bm, totalNumPages = int k, curPagePos = 0\<rparr>
              (zeroes PAGE_SIZE) bytes =
            Returns (RC_OK, zeroes PAGE_SIZE, bytes @ zeroes ((Suc n - k) * PAGE_SIZE))"
    using ps whole kn by (rule fetch_page_beyond) simp
  show ?thesis
    using absent free page_text_not_zero [OF ps]
    by (simp add: pinPage_def pin_new_frame_def op fb fp n createNode_def Let_def)
qed


text \<open>
  The failing input: a fresh pool of three frames over a file of one page
  (\<open>PAGE_SIZE = 4096\<close>), and a pin of page 2.  The claim expects the buffer to start with
  the bytes of \<^verbatim>\<open>"Page-2"\<close> and a zero byte.
\<close>

theorem pinPage_beyond_extent_witness:
  "pinPage 4096 (snd (initBufferPool ''f'' 3 RS_FIFO)) \<lparr>ph_pageNum = NO_PAGE, ph_frame = 0\<rparr> 2
      (Map.empty(''f'' \<mapsto> zeroes 4096)) =
     Returns (RC_OK,
       \<lparr>pageFile = ''f'', numPages = 3, strategy = RS_FIFO,
        mgmtData = \<lparr>frames = [\<lparr>data = zeroes 4096, pageNum = 2, isDirty = False, pinCount = 1,
                                accessCount = 1, lastAccessed = 1\<rparr>],
                     fifoHead = Some 0, numFramesUsed = 1, totalFrames = 3, readCount = 1,
                     writeCount = 0, clockHand = 0, globalTimer = 1\<rparr>\<rparr>,
       \<lparr>ph_pageNum = 2, ph_frame = 0\<rparr>,
       Map.empty(''f'' \<mapsto> zeroes 4096 @ zeroes 8192))
   \<and> page_text 2 = [0x50, 0x61, 0x67, 0x65, 0x2D, 0x32, 0]
   \<and> zeroes 4096 \<noteq> page_text 2 @ zeroes (4096 - length (page_text 2))"
proof -
  have "\<exists>bm' page'.
           pinPage 4096 (snd (initBufferPool ''f'' 3 RS_FIFO)) \<lparr>ph_pageNum = NO_PAGE, ph_frame = 0\<rparr> 2
              (Map.empty(''f'' \<mapsto> zeroes 4096)) =
             Returns (RC_OK, bm', page',
                      (Map.empty(''f'' \<mapsto> zeroes 4096))(pageFile (snd (initBufferPool ''f'' 3 RS_FIFO)) \<mapsto> zeroes 4096 @ zeroes ((Suc (nat 2) - 1) * 4096)))
           \<and> page' = \<lparr>ph_pageNum = 2, ph_frame = length (frames (mgmtData (snd (initBufferPool ''f'' 3 RS_FIFO))))\<rparr>
           \<and> frames (mgmtData bm') =
               frames (mgmtData (snd (initBufferPool ''f'' 3 RS_FIFO))) @
                 [\<lparr>data = zeroes 4096, pageNum = 2, isDirty = False, pinCount = 1,
                   accessCount = 1, lastAccessed = globalTimer (mgmtData (snd (initBufferPool ''f'' 3 RS_FIFO))) + 1\<rparr>]
           \<and> data (frames (mgmtData bm') ! ph_frame page') = zeroes 4096
           \<and> data (frames (mgmtData bm') ! ph_frame page')
               \<noteq> page_text 2 @ zeroes (4096 - length (page_text 2))"
    by (rule pinPage_beyond_extent_zero_filled [where k = 1])
       (simp_all add: initBufferPool_def zeroes_def findPage_def)
  then have neq: "zeroes 4096 \<noteq> page_text 2 @ zeroes (4096 - length (page_text 2))"
    by auto
  have ev: "pinPage 4096 (snd (initBufferPool ''f'' 3 RS_FIFO)) \<lparr>ph_pageNum = NO_PAGE, ph_frame = 0\<rparr> 2
      (Map.empty(''f'' \<mapsto> zeroes 4096)) =
     Returns (RC_OK,
       \<lparr>pageFile = ''f'', numPages = 3, strategy = RS_FIFO,
        mgmtData = \<lparr>frames = [\<lparr>data = zeroes 4096, pageNum = 2, isDirty = False, pinCount = 1,
                                accessCount = 1, lastAccessed = 1\<rparr>],
                     fifoHead = Some 0, numFramesUsed = 1, totalFrames = 3, readCount = 1,
                     writeCount = 0, clockHand = 0, globalTimer = 1\<rparr>\<rparr>,
       \<lparr>ph_pageNum = 2, ph_frame = 0\<rparr>,
       Map.empty(''f'' \<mapsto> zeroes 4096 @ zeroes 8192))"
    by (simp add: bm_defs sm_defs zeroes_def Let_def)
  have pt: "page_text 2 = [0x50, 0x61, 0x67, 0x65, 0x2D, 0x32, 0]"
    by (simp add: page_text_def decimal.simps)
  from ev pt neq show ?thesis by simp
qed

lemma page_of_nth:
  assumes "nat p * PAGE_SIZE + PAGE_SIZE \<le> length bytes" "i < PAGE_SIZE"
  shows "page_of PAGE_SIZE bytes p ! i = bytes ! (nat p * PAGE_SIZE + i)"
  using assms by (simp add: page_of_def)

lemma length_page_of:
  "nat p * PAGE_SIZE + PAGE_SIZE \<le> length bytes \<Longrightarrow> length (page_of PAGE_SIZE bytes p) = PAGE_SIZE"
  by (simp add: page_of_def)

lemma page_fits:
  assumes "length bytes = k * PAGE_SIZE" "0 \<le> p" "p < int k"
  shows "nat p * PAGE_SIZE + PAGE_SIZE \<le> length bytes"
proof -
  from assms have "Suc (nat p) \<le> k" by linarith
  then have "Suc (nat p) * PAGE_SIZE \<le> k * PAGE_SIZE" by (rule mult_le_mono1)
  with assms show ?thesis by simp
qed

lemma page_of_fwrite_same:
  assumes "length bytes = k * PAGE_SIZE" "0 \<le> p" "p < int k" "length buf = PAGE_SIZE"
  shows "page_of PAGE_SIZE (fwrite_at (nat p * PAGE_SIZE) buf bytes) p = buf"
  using fwrite_at_page [of "nat p * PAGE_SIZE" buf bytes] page_fits [OF assms(1,2,3)] assms(4)
  by (simp add: page_of_def)

lemma page_of_fwrite_other:
  assumes len: "length bytes = k * PAGE_SIZE" and p: "0 \<le> p" "p < int k"
    and q: "0 \<le> q" "q < int k" and pq: "p \<noteq> q" and buf: "length buf \<le> PAGE_SIZE"
  shows "page_of PAGE_SIZE (fwrite_at (nat q * PAGE_SIZE) buf bytes) p = page_of PAGE_SIZE bytes p"
proof -
  have fp: "nat p * PAGE_SIZE + PAGE_SIZE \<le> length bytes" using len p by (rule page_fits)
  have fq: "nat q * PAGE_SIZE + PAGE_SIZE \<le> length bytes" using len q by (rule page_fits)
  then have fqb: "nat q * PAGE_SIZE + length buf \<le> length bytes" using buf by simp
  have l: "length (fwrite_at (nat q * PAGE_SIZE) buf bytes) = length bytes"
    using fqb by (rule length_fwrite_at)
  show ?thesis
  proof (rule nth_equalityI)
    show "length (page_of PAGE_SIZE (fwrite_at (nat q * PAGE_SIZE) buf bytes) p) =
          length (page_of PAGE_SIZE bytes p)"
      using fp l by (simp add: length_page_of)
  next
    fix i assume "i < length (page_of PAGE_SIZE (fwrite_at (nat q * PAGE_SIZE) buf bytes) p)"
    then have i: "i < PAGE_SIZE" using fp l by (simp add: length_page_of)
    have disj: "nat p * PAGE_SIZE + i < nat q * PAGE_SIZE
                \<or> nat q * PAGE_SIZE + length buf \<le> nat p * PAGE_SIZE + i"
    proof (cases "p < q")
      case True
      then have "Suc (nat p) \<le> nat q" using p by linarith
      then have "Suc (nat p) * PAGE_SIZE \<le> nat q * PAGE_SIZE" by (rule mult_le_mono1)
      with i show ?thesis by simp
    next
      case False
      with pq have "Suc (nat q) \<le> nat p" using q by linarith
      then have "Suc (nat q) * PAGE_SIZE \<le> nat p * PAGE_SIZE" by (rule mult_le_mono1)
      with buf show ?thesis by simp
    qed
    have "nat p * PAGE_SIZE + i < length bytes" using fp i by simp
    from fwrite_at_other [OF fqb this disj]
    show "page_of PAGE_SIZE (fwrite_at (nat q * PAGE_SIZE) buf bytes) p ! i =
          page_of PAGE_SIZE bytes p ! i"
      using fp l i by (simp add: page_of_nth)
  qed
qed

lemma write_frame_whole:
  assumes ps: "0 < PAGE_SIZE" and fl: "fs name = Some bytes" and len: "length bytes = k * PAGE_SIZE"
  shows "\<exists>bytes'. write_frame PAGE_SIZE name node fs = Returns (fs(name \<mapsto> bytes'))
           \<and> length bytes' = k * PAGE_SIZE
           \<and> (\<forall>p. 0 \<le> p \<and> p < int k \<and> p \<noteq> pageNum node
                  \<longrightarrow> page_of PAGE_SIZE bytes' p = page_of PAGE_SIZE bytes p)
           \<and> (0 \<le> pageNum node \<and> pageNum node < int k \<and> length (data node) = PAGE_SIZE
                  \<longrightarrow> page_of PAGE_SIZE bytes' (pageNum node) = data node)"
proof (cases "0 \<le> pageNum node \<and> pageNum node < int k")
  case False
  then show ?thesis
    using openPageFile_whole [where fs = fs and name = name, OF ps fl len] fl len
    by (auto simp: write_frame_def writeBlock_def file_bytes_def)
next
  case True
  let ?buf = "take PAGE_SIZE (data node)"
  let ?b = "fwrite_at (nat (pageNum node) * PAGE_SIZE) ?buf bytes"
  have w: "write_frame PAGE_SIZE name node fs = Returns (fs(name \<mapsto> ?b))"
    using True openPageFile_whole [where fs = fs and name = name, OF ps fl len] fl
    by (auto simp: write_frame_def writeBlock_def file_bytes_def)
  have fit: "nat (pageNum node) * PAGE_SIZE + PAGE_SIZE \<le> length bytes"
    using len True by (intro page_fits) auto
  then have l: "length ?b = k * PAGE_SIZE"
    using len by (subst length_fwrite_at) auto
  have o: "\<forall>p. 0 \<le> p \<and> p < int k \<and> p \<noteq> pageNum node
              \<longrightarrow> page_of PAGE_SIZE ?b p = page_of PAGE_SIZE bytes p"
    using True len by (auto intro!: page_of_fwrite_other)
  have s: "length (data node) = PAGE_SIZE \<longrightarrow> page_of PAGE_SIZE ?b (pageNum node) = data node"
    using True len page_of_fwrite_same [of bytes k PAGE_SIZE "pageNum node" "data node"]
    by auto
  from w l o s show ?thesis by blast
qed


lemma flush_loop_whole:
  assumes ps: "0 < PAGE_SIZE" and fl: "fs name = Some bytes" and len: "length bytes = k * PAGE_SIZE"
  shows "\<exists>bytes'.
           flush_loop PAGE_SIZE name frs fs =
             Returns (map flushed frs, fs(name \<mapsto> bytes'), int (length (filter needs_flush frs)))
         \<and> length bytes' = k * PAGE_SIZE
         \<and> (\<forall>p. 0 \<le> p \<and> p < int k \<and> (\<forall>f \<in> set frs. needs_flush f \<longrightarrow> pageNum f \<noteq> p)
                \<longrightarrow> page_of PAGE_SIZE bytes' p = page_of PAGE_SIZE bytes p)
         \<and> (\<forall>i < length frs.
               needs_flush (frs ! i) \<and> 0 \<le> pageNum (frs ! i) \<and> pageNum (frs ! i) < int k
               \<and> length (data (frs ! i)) = PAGE_SIZE
               \<and> (\<forall>j. i < j \<and> j < length frs \<and> needs_flush (frs ! j)
                      \<longrightarrow> pageNum (frs ! j) \<noteq> pageNum (frs ! i))
               \<longrightarrow> page_of PAGE_SIZE bytes' (pageNum (frs ! i)) = data (frs ! i))"
  using fl len
proof (induction frs arbitrary: fs bytes)
  case Nil
  then have "fs = fs(name \<mapsto> bytes)" by (simp add: fun_upd_idem)
  with Nil show ?case by (intro exI [where x = bytes]) simp
next
  case (Cons current rest)
  show ?case
  proof (cases "needs_flush current")
    case False
    from Cons.IH [of fs bytes, OF Cons.prems] obtain bytes' where
      r: "flush_loop PAGE_SIZE name rest fs =
            Returns (map flushed rest, fs(name \<mapsto> bytes'), int (length (filter needs_flush rest)))"
      and l: "length bytes' = k * PAGE_SIZE"
      and o: "\<forall>p. 0 \<le> p \<and> p < int k \<and> (\<forall>f \<in> set rest. needs_flush f \<longrightarrow> pageNum f \<noteq> p)
                \<longrightarrow> page_of PAGE_SIZE bytes' p = page_of PAGE_SIZE bytes p"
      and d: "\<forall>i < length rest.
               needs_flush (rest ! i) \<and> 0 \<le> pageNum (rest ! i) \<and> pageNum (rest ! i) < int k
               \<and> length (data (rest ! i)) = PAGE_SIZE
               \<and> (\<forall>j. i < j \<and> j < length rest \<and> needs_flush (rest ! j)
                      \<longrightarrow> pageNum (rest ! j) \<noteq> pageNum (rest ! i))
               \<longrightarrow> page_of PAGE_SIZE bytes' (pageNum (rest ! i)) = data (rest ! i)"
      by blast
    have 1: "flush_loop PAGE_SIZE name (current # rest) fs =
             Returns (map flushed (current # rest), fs(name \<mapsto> bytes'),
                      int (length (filter needs_flush (current # rest))))"
      using False r by (auto simp: needs_flush_def flushed_def)
    have 3: "\<forall>p. 0 \<le> p \<and> p < int k
                \<and> (\<forall>f \<in> set (current # rest). needs_flush f \<longrightarrow> pageNum f \<noteq> p)
                \<longrightarrow> page_of PAGE_SIZE bytes' p = page_of PAGE_SIZE bytes p"
      using o by simp
    have 4: "\<forall>i < length (current # rest).
               needs_flush ((current # rest) ! i) \<and> 0 \<le> pageNum ((current # rest) ! i)
               \<and> pageNum ((current # rest) ! i) < int k
               \<and> length (data ((current # rest) ! i)) = PAGE_SIZE
               \<and> (\<forall>j. i < j \<and> j < length (current # rest) \<and> needs_flush ((current # rest) ! j)
                      \<longrightarrow> pageNum ((current # rest) ! j) \<noteq> pageNum ((current # rest) ! i))
               \<longrightarrow> page_of PAGE_SIZE bytes' (pageNum ((current # rest) ! i)) =
                   data ((current # rest) ! i)"
    proof (intro allI impI)
      fix i assume i: "i < length (current # rest)"
        and h: "needs_flush ((current # rest) ! i) \<and> 0 \<le> pageNum ((current # rest) ! i)
               \<and> pageNum ((current # rest) ! i) < int k
               \<and> length (data ((current # rest) ! i)) = PAGE_SIZE
               \<and> (\<forall>j. i < j \<and> j < length (current # rest) \<and> needs_flush ((current # rest) ! j)
                      \<longrightarrow> pageNum ((current # rest) ! j) \<noteq> pageNum ((current # rest) ! i))"
      from h False obtain i' where i': "i = Suc i'" by (cases i) auto
      have "\<forall>j. i' < j \<and> j < length rest \<and> needs_flush (rest ! j)
                \<longrightarrow> pageNum (rest ! j) \<noteq> pageNum (rest ! i')"
      proof (intro allI impI)
        fix j assume "i' < j \<and> j < length rest \<and> needs_flush (rest ! j)"
        with h i' show "pageNum (rest ! j) \<noteq> pageNum (rest ! i')"
          by (auto dest: spec [where x = "Suc j"])
      qed
      with d i i' h show "page_of PAGE_SIZE bytes' (pageNum ((current # rest) ! i)) =
                   data ((current # rest) ! i)"
        by simp
    qed
    from 1 l 3 4 show ?thesis by blast
  next
    case True
    from write_frame_whole [where fs = fs and name = name, OF ps Cons.prems] obtain b1 where
      w: "write_frame PAGE_SIZE name current fs = Returns (fs(name \<mapsto> b1))"
      and l1: "length b1 = k * PAGE_SIZE"
      and o1: "\<forall>p. 0 \<le> p \<and> p < int k \<and> p \<noteq> pageNum current
                  \<longrightarrow> page_of PAGE_SIZE b1 p = page_of PAGE_SIZE bytes p"
      and s1: "0 \<le> pageNum current \<and> pageNum current < int k \<and> length (data current) = PAGE_SIZE
                  \<longrightarrow> page_of PAGE_SIZE b1 (pageNum current) = data current"
      by blast
    have fl1: "(fs(name \<mapsto> b1)) name = Some b1" by simp
    note ih = Cons.IH [of "fs(name \<mapsto> b1)" b1, OF fl1 l1, simplified fun_upd_upd]
    from ih obtain bytes' where
      r: "flush_loop PAGE_SIZE name rest (fs(name \<mapsto> b1)) =
            Returns (map flushed rest, fs(name \<mapsto> bytes'), int (length (filter needs_flush rest)))"
      and l: "length bytes' = k * PAGE_SIZE"
      and o: "\<forall>p. 0 \<le> p \<and> p < int k \<and> (\<forall>f \<in> set rest. needs_flush f \<longrightarrow> pageNum f \<noteq> p)
                \<longrightarrow> page_of PAGE_SIZE bytes' p = page_of PAGE_SIZE b1 p"
      and d: "\<forall>i < length rest.
               needs_flush (rest ! i) \<and> 0 \<le> pageNum (rest ! i) \<and> pageNum (rest ! i) < int k
               \<and> length (data (rest ! i)) = PAGE_SIZE
               \<and> (\<forall>j. i < j \<and> j < length rest \<and> needs_flush (rest ! j)
                      \<longrightarrow> pageNum (rest ! j) \<noteq> pageNum (rest ! i))
               \<longrightarrow> page_of PAGE_SIZE bytes' (pageNum (rest ! i)) = data (rest ! i)"
      by blast
    have 1: "flush_loop PAGE_SIZE name (current # rest) fs =
             Returns (map flushed (current # rest), fs(name \<mapsto> bytes'),
                      int (length (filter needs_flush (current # rest))))"
      using True w r by (auto simp: needs_flush_def flushed_def)
    have 3: "\<forall>p. 0 \<le> p \<and> p < int k
                \<and> (\<forall>f \<in> set (current # rest). needs_flush f \<longrightarrow> pageNum f \<noteq> p)
                \<longrightarrow> page_of PAGE_SIZE bytes' p = page_of PAGE_SIZE bytes p"
      using o o1 True by auto
    have 4: "\<forall>i < length (current # rest).
               needs_flush ((current # rest) ! i) \<and> 0 \<le> pageNum ((current # rest) ! i)
               \<and> pageNum ((current # rest) ! i) < int k
               \<and> length (data ((current # rest) ! i)) = PAGE_SIZE
               \<and> (\<forall>j. i < j \<and> j < length (current # rest) \<and> needs_flush ((current # rest) ! j)
                      \<longrightarrow> pageNum ((current # rest) ! j) \<noteq> pageNum ((current # rest) ! i))
               \<longrightarrow> page_of PAGE_SIZE bytes' (pageNum ((current # rest) ! i)) =
                   data ((current # rest) ! i)"
    proof (intro allI impI)
      fix i assume i: "i < length (current # rest)"
        and h: "needs_flush ((current # rest) ! i) \<and> 0 \<le> pageNum ((current # rest) ! i)
               \<and> pageNum ((current # rest) ! i) < int k
               \<and> length (data ((current # rest) ! i)) = PAGE_SIZE
               \<and> (\<forall>j. i < j \<and> j < length (current # rest) \<and> needs_flush ((current # rest) ! j)
                      \<longrightarrow> pageNum ((current # rest) ! j) \<noteq> pageNum ((current # rest) ! i))"
      show "page_of PAGE_SIZE bytes' (pageNum ((current # rest) ! i)) =
                   data ((current # rest) ! i)"
      proof (cases i)
        case 0
        have "\<forall>f \<in> set rest. needs_flush f \<longrightarrow> pageNum f \<noteq> pageNum current"
        proof (intro ballI impI)
          fix f assume "f \<in> set rest" "needs_flush f"
          then obtain j where "j < length rest" "rest ! j = f" by (auto simp: in_set_conv_nth)
          with h 0 \<open>needs_flush f\<close> show "pageNum f \<noteq> pageNum current"
            by (auto dest: spec [where x = "Suc j"])
        qed
        with o h 0 have "page_of PAGE_SIZE bytes' (pageNum current) =
                         page_of PAGE_SIZE b1 (pageNum current)"
          by simp
        with s1 h 0 show ?thesis by simp
      next
        case (Suc i')
        have "\<forall>j. i' < j \<and> j < length rest \<and> needs_flush (rest ! j)
                  \<longrightarrow> pageNum (rest ! j) \<noteq> pageNum (rest ! i')"
        proof (intro allI impI)
          fix j assume "i' < j \<and> j < length rest \<and> needs_flush (rest ! j)"
          with h Suc show "pageNum (rest ! j) \<noteq> pageNum (rest ! i')"
            by (auto dest: spec [where x = "Suc j"])
        qed
        with d i Suc h show ?thesis by simp
      qed
    qed
    from 1 l 3 4 show ?thesis by blast
  qed
qed


lemma free_loop_pinned:
  assumes "\<exists>n \<in> set frs. pinCount n > 0"
  shows "\<exists>k. free_loop frs j = (RC_PINNED_PAGES_IN_BUFFER, j + k) \<and> k < length frs
           \<and> (\<forall>i < k. \<not> pinCount (frs ! i) > 0) \<and> pinCount (frs ! k) > 0"
  using assms
proof (induction frs arbitrary: j)
  case Nil
  then show ?case by simp
next
  case (Cons current rest)
  show ?case
  proof (cases "pinCount current > 0")
    case True
    then show ?thesis by (intro exI [where x = 0]) simp
  next
    case False
    with Cons.prems have "\<exists>n \<in> set rest. pinCount n > 0" by auto
    from Cons.IH [OF this, of "Suc j"] obtain k where
      k: "free_loop rest (Suc j) = (RC_PINNED_PAGES_IN_BUFFER, Suc j + k)" "k < length rest"
         "\<forall>i < k. \<not> pinCount (rest ! i) > 0" "pinCount (rest ! k) > 0"
      by blast
    have "\<forall>i < Suc k. \<not> pinCount ((current # rest) ! i) > 0"
      using False k(3) by (auto simp: less_Suc_eq_0_disj)
    with False k show ?thesis by (intro exI [where x = "Suc k"]) simp
  qed
qed

lemma flushed_pinned: "pinCount node > 0 \<Longrightarrow> flushed node = node"
  by (simp add: flushed_def)

lemma flushed_fields:
  "data (flushed node) = data node" "pageNum (flushed node) = pageNum node"
  "pinCount (flushed node) = pinCount node"
  "isDirty (flushed node) \<Longrightarrow> pinCount node \<noteq> 0"
  by (auto simp: flushed_def split: if_splits)

text \<open>
  C2: a pool over an existing file of \<open>k\<close> whole pages in which some frame is pinned.
  \<^verbatim>\<open>shutdownBufferPool\<close> first runs \<^verbatim>\<open>forceFlushPool\<close>, which returns \<open>RC_OK\<close>: every
  dirty unpinned frame is marked clean and all other frames are left as they are; the
  page of such a frame is on disk afterwards when its page number lies in the file, its
  buffer has \<open>PAGE_SIZE\<close> bytes and no later flushed frame holds the same page number.
  Then the call fails with \<open>RC_PINNED_PAGES_IN_BUFFER\<close>, and \<^verbatim>\<open>bm->mgmtData\<close> is kept.
  Every frame that was pinned before the call is unchanged (page number, contents, pin
  count and all other fields) and its storage has not been freed: the nodes freed are
  those in front of the first pinned frame, all of them unpinned.
\<close>

theorem shutdown_with_pinned_frames:
  assumes ps: "0 < PAGE_SIZE"
    and fl: "fs (pageFile bm) = Some bytes"
    and len: "length bytes = k * PAGE_SIZE"
    and pinned: "\<exists>n \<in> set (frames (mgmtData bm)). pinCount n > 0"
  shows "\<exists>bm1 bytes1 freed.
           forceFlushPool PAGE_SIZE bm fs = Returns (RC_OK, bm1, fs(pageFile bm \<mapsto> bytes1))
         \<and> shutdownBufferPool PAGE_SIZE bm fs =
             Returns (RC_PINNED_PAGES_IN_BUFFER,
                      \<lparr>remaining = Some (mgmtData bm1), freedNodes = freed\<rparr>,
                      fs(pageFile bm \<mapsto> bytes1))
         \<and> frames (mgmtData bm1) = map flushed (frames (mgmtData bm))
         \<and> (\<forall>i < length (frames (mgmtData bm)).
               needs_flush (frames (mgmtData bm) ! i)
               \<and> 0 \<le> pageNum (frames (mgmtData bm) ! i) \<and> pageNum (frames (mgmtData bm) ! i) < int k
               \<and> length (data (frames (mgmtData bm) ! i)) = PAGE_SIZE
               \<and> (\<forall>j. i < j \<and> j < length (frames (mgmtData bm))
                        \<and> needs_flush (frames (mgmtData bm) ! j)
                      \<longrightarrow> pageNum (frames (mgmtData bm) ! j) \<noteq> pageNum (frames (mgmtData bm) ! i))
               \<longrightarrow> page_of PAGE_SIZE bytes1 (pageNum (frames (mgmtData bm) ! i))
                     = data (frames (mgmtData bm) ! i))
         \<and> (\<forall>i < length (frames (mgmtData bm)).
               pinCount (frames (mgmtData bm) ! i) > 0
               \<longrightarrow> freed \<le> i \<and> frames (mgmtData bm1) ! i = frames (mgmtData bm) ! i)"
proof -
  let ?frs = "frames (mgmtData bm)"
  from flush_loop_whole [where fs = fs and name = "pageFile bm" and frs = ?frs, OF ps fl len]
  obtain bytes1 where
    f: "flush_loop PAGE_SIZE (pageFile bm) ?frs fs =
          Returns (map flushed ?frs, fs(pageFile bm \<mapsto> bytes1),
                   int (length (filter needs_flush ?frs)))"
    and d: "\<forall>i < length ?frs.
               needs_flush (?frs ! i) \<and> 0 \<le> pageNum (?frs ! i) \<and> pageNum (?frs ! i) < int k
               \<and> length (data (?frs ! i)) = PAGE_SIZE
               \<and> (\<forall>j. i < j \<and> j < length ?frs \<and> needs_flush (?frs ! j)
                      \<longrightarrow> pageNum (?frs ! j) \<noteq> pageNum (?frs ! i))
               \<longrightarrow> page_of PAGE_SIZE bytes1 (pageNum (?frs ! i)) = data (?frs ! i)"
    by blast
  define bm1 where
    "bm1 = bm\<lparr>mgmtData := (mgmtData bm)\<lparr>frames := map flushed ?frs,
              writeCount := writeCount (mgmtData bm) + int (length (filter needs_flush ?frs))\<rparr>\<rparr>"
  have ff: "forceFlushPool PAGE_SIZE bm fs = Returns (RC_OK, bm1, fs(pageFile bm \<mapsto> bytes1))"
    using f by (simp add: forceFlushPool_def bm1_def Let_def)
  have fr1: "frames (mgmtData bm1) = map flushed ?frs" by (simp add: bm1_def)
  from pinned have "\<exists>n \<in> set (map flushed ?frs). pinCount n > 0"
    by (auto simp: flushed_fields)
  from free_loop_pinned [OF this, of 0] obtain freed where
    fl0: "free_loop (map flushed ?frs) 0 = (RC_PINNED_PAGES_IN_BUFFER, freed)"
    and fr: "freed < length ?frs" "\<forall>i < freed. \<not> pinCount (map flushed ?frs ! i) > 0"
    by auto
  have sd: "shutdownBufferPool PAGE_SIZE bm fs =
             Returns (RC_PINNED_PAGES_IN_BUFFER,
                      \<lparr>remaining = Some (mgmtData bm1), freedNodes = freed\<rparr>,
                      fs(pageFile bm \<mapsto> bytes1))"
    using ff fl0 fr1 by (simp add: shutdownBufferPool_def)
  have keep: "\<forall>i < length ?frs. pinCount (?frs ! i) > 0
               \<longrightarrow> freed \<le> i \<and> frames (mgmtData bm1) ! i = ?frs ! i"
  proof (intro allI impI)
    fix i assume i: "i < length ?frs" and p: "pinCount (?frs ! i) > 0"
    have "freed \<le> i"
    proof (rule ccontr)
      assume "\<not> freed \<le> i"
      then have "i < freed" by simp
      with fr(2) have "\<not> pinCount (map flushed ?frs ! i) > 0" by blast
      with i p show False by (simp add: flushed_fields)
    qed
    moreover have "frames (mgmtData bm1) ! i = ?frs ! i"
      using i p by (simp add: fr1 flushed_pinned)
    ultimately show "freed \<le> i \<and> frames (mgmtData bm1) ! i = ?frs ! i" by simp
  qed
  from ff sd fr1 d keep show ?thesis by blast
qed


text \<open>
  An instance: three dirty frames, the second one pinned.  Pages 1 and 3 are written,
  page 2 is not; the first node is freed, the pinned node and the one behind it are not.
\<close>

theorem shutdown_with_pinned_frames_witness:
  "shutdownBufferPool 4096
     \<lparr>pageFile = ''f'', numPages = 3, strategy = RS_LRU,
      mgmtData =
        \<lparr>frames =
           [\<lparr>data = replicate 4096 7, pageNum = 1, isDirty = True, pinCount = 0,
              accessCount = 1, lastAccessed = 1\<rparr>,
            \<lparr>data = replicate 4096 8, pageNum = 2, isDirty = True, pinCount = 1,
              accessCount = 1, lastAccessed = 2\<rparr>,
            \<lparr>data = replicate 4096 9, pageNum = 3, isDirty = True, pinCount = 0,
              accessCount = 1, lastAccessed = 3\<rparr>],
         fifoHead = Some 0, numFramesUsed = 3, totalFrames = 3, readCount = 3,
         writeCount = 0, clockHand = 0, globalTimer = 3\<rparr>\<rparr>
     (Map.empty(''f'' \<mapsto> zeroes 16384))
   = Returns
      (RC_PINNED_PAGES_IN_BUFFER,
       \<lparr>remaining =
          Some \<lparr>frames =
                  [\<lparr>data = replicate 4096 7, pageNum = 1, isDirty = False, pinCount = 0,
                     accessCount = 1, lastAccessed = 1\<rparr>,
                   \<lparr>data = replicate 4096 8, pageNum = 2, isDirty = True, pinCount = 1,
                     accessCount = 1, lastAccessed = 2\<rparr>,
                   \<lparr>data = replicate 4096 9, pageNum = 3, isDirty = False, pinCount = 0,
                     accessCount = 1, lastAccessed = 3\<rparr>],
                fifoHead = Some 0, numFramesUsed = 3, totalFrames = 3, readCount = 3,
                writeCount = 2, clockHand = 0, globalTimer = 3\<rparr>,
        freedNodes = 1\<rparr>,
       Map.empty(''f'' \<mapsto>
         replicate 4096 0 @ replicate 4096 7 @ replicate 4096 0 @ replicate 4096 9))"
proof -
  let ?bm = "\<lparr>pageFile = ''f'', numPages = 3, strategy = RS_LRU,
      mgmtData =
        \<lparr>frames =
           [\<lparr>data = replicate 4096 7, pageNum = 1, isDirty = True, pinCount = 0,
              accessCount = 1, lastAccessed = 1\<rparr>,
            \<lparr>data = replicate 4096 8, pageNum = 2, isDirty = True, pinCount = 1,
              accessCount = 1, lastAccessed = 2\<rparr>,
            \<lparr>data = replicate 4096 9, pageNum = 3, isDirty = True, pinCount = 0,
              accessCount = 1, lastAccessed = 3\<rparr>],
         fifoHead = Some 0, numFramesUsed = 3, totalFrames = 3, readCount = 3,
         writeCount = 0, clockHand = 0, globalTimer = 3\<rparr>\<rparr>"
  let ?fs = "Map.empty(''f'' \<mapsto> zeroes 16384)"
  have p1: "0 < (4096::nat)" by simp
  have p2: "?fs (pageFile ?bm) = Some (zeroes 16384)" by simp
  have p3: "length (zeroes 16384) = 4 * 4096" by (simp add: zeroes_def)
  have p4: "\<exists>n \<in> set (frames (mgmtData ?bm)). pinCount n > 0" by simp
  note th = shutdown_with_pinned_frames
              [where PAGE_SIZE = 4096 and fs = ?fs and bm = ?bm and bytes = "zeroes 16384"
                 and k = 4, OF p1 p2 p3 p4]
  have ev: "shutdownBufferPool 4096 ?bm ?fs
   = Returns
      (RC_PINNED_PAGES_IN_BUFFER,
       \<lparr>remaining =
          Some \<lparr>frames =
                  [\<lparr>data = replicate 4096 7, pageNum = 1, isDirty = False, pinCount = 0,
                     accessCount = 1, lastAccessed = 1\<rparr>,
                   \<lparr>data = replicate 4096 8, pageNum = 2, isDirty = True, pinCount = 1,
                     accessCount = 1, lastAccessed = 2\<rparr>,
                   \<lparr>data = replicate 4096 9, pageNum = 3, isDirty = False, pinCount = 0,
                     accessCount = 1, lastAccessed = 3\<rparr>],
                fifoHead = Some 0, numFramesUsed = 3, totalFrames = 3, readCount = 3,
                writeCount = 2, clockHand = 0, globalTimer = 3\<rparr>,
        freedNodes = 1\<rparr>,
       Map.empty(''f'' \<mapsto>
         replicate 4096 0 @ replicate 4096 7 @ replicate 4096 0 @ replicate 4096 9))"
    by (simp add: shutdownBufferPool_def forceFlushPool_def write_frame_def sm_defs zeroes_def
          Let_def)
  show ?thesis using th by (simp only: ev)
qed

lemma find_node_Some:
  "find_node fs pn = Some i \<Longrightarrow> i < length fs \<and> pageNum (fs ! i) = pn"
  by (induction fs arbitrary: i) (auto split: if_splits)


lemma strip_access_length: "strip_access fs = strip_access fs' \<Longrightarrow> length fs = length fs'"
  unfolding strip_access_def by (rule map_eq_imp_length_eq)

lemma strip_access_nth:
  assumes "strip_access fs = strip_access fs'" "i < length fs"
  shows "data (fs' ! i) = data (fs ! i)" "pageNum (fs' ! i) = pageNum (fs ! i)"
    "isDirty (fs' ! i) = isDirty (fs ! i)" "pinCount (fs' ! i) = pinCount (fs ! i)"
    "lastAccessed (fs' ! i) = lastAccessed (fs ! i)"
proof -
  from assms have l: "i < length fs'" using strip_access_length by metis
  from assms have "strip_access fs ! i = strip_access fs' ! i" by simp
  with assms(2) l have e: "(fs ! i)\<lparr>accessCount := 0\<rparr> = (fs' ! i)\<lparr>accessCount := 0\<rparr>"
    by (simp add: strip_access_def)
  from e have "data ((fs ! i)\<lparr>accessCount := 0\<rparr>) = data ((fs' ! i)\<lparr>accessCount := 0\<rparr>)" by simp
  then show "data (fs' ! i) = data (fs ! i)" by simp
  from e have "pageNum ((fs ! i)\<lparr>accessCount := 0\<rparr>) = pageNum ((fs' ! i)\<lparr>accessCount := 0\<rparr>)" by simp
  then show "pageNum (fs' ! i) = pageNum (fs ! i)" by simp
  from e have "isDirty ((fs ! i)\<lparr>accessCount := 0\<rparr>) = isDirty ((fs' ! i)\<lparr>accessCount := 0\<rparr>)" by simp
  then show "isDirty (fs' ! i) = isDirty (fs ! i)" by simp
  from e have "pinCount ((fs ! i)\<lparr>accessCount := 0\<rparr>) = pinCount ((fs' ! i)\<lparr>accessCount := 0\<rparr>)" by simp
  then show "pinCount (fs' ! i) = pinCount (fs ! i)" by simp
  from e have "lastAccessed ((fs ! i)\<lparr>accessCount := 0\<rparr>) = lastAccessed ((fs' ! i)\<lparr>accessCount := 0\<rparr>)" by simp
  then show "lastAccessed (fs' ! i) = lastAccessed (fs ! i)" by simp
qed

lemma strip_access_map:
  assumes "strip_access fs = strip_access fs'"
  shows "map pinCount fs' = map pinCount fs" "map pageNum fs' = map pageNum fs"
    "map data fs' = map data fs" "map isDirty fs' = map isDirty fs"
proof -
  have l: "length fs = length fs'" using assms by (rule strip_access_length)
  show "map pinCount fs' = map pinCount fs"
    using l strip_access_nth(4) [OF assms] by (auto intro!: nth_equalityI)
  show "map pageNum fs' = map pageNum fs"
    using l strip_access_nth(2) [OF assms] by (auto intro!: nth_equalityI)
  show "map data fs' = map data fs"
    using l strip_access_nth(1) [OF assms] by (auto intro!: nth_equalityI)
  show "map isDirty fs' = map isDirty fs"
    using l strip_access_nth(3) [OF assms] by (auto intro!: nth_equalityI)
qed

lemma strip_access_update:
  "strip_access (fs[i := (fs ! i)\<lparr>accessCount := a\<rparr>]) = strip_access fs"
  by (cases "i < length fs") (auto simp: strip_access_def map_update intro!: nth_equalityI simp: nth_list_update)

lemma fifo_loop_Some:
  "fifo_loop fs s c = Some v \<Longrightarrow> v < length fs \<and> pinCount (fs ! v) = 0"
proof (induction fs s c rule: fifo_loop.induct)
  case (1 fs s c)
  show ?case
  proof (cases "length fs \<le> c \<or> length fs \<le> s")
    case True
    with 1(2) show ?thesis by (subst (asm) fifo_loop.simps) simp
  next
    case g: False
    show ?thesis
    proof (cases "pinCount (fs ! c) = 0")
      case True
      with 1(2) g show ?thesis by (subst (asm) fifo_loop.simps) auto
    next
      case False
      show ?thesis
      proof (cases "next_node fs c \<noteq> s")
        case True
        with 1(2) g False have "fifo_loop fs s (next_node fs c) = Some v"
          by (subst (asm) fifo_loop.simps) simp
        from 1(1) [OF g False True this] show ?thesis .
      next
        case nx: False
        with 1(2) g False show ?thesis by (subst (asm) fifo_loop.simps) simp
      qed
    qed
  qed
qed

lemma lru_loop_Some:
  "lru_loop fs i victim a = Some v \<Longrightarrow>
     victim = Some v \<or> (\<exists>j < length fs. v = i + j \<and> pinCount (fs ! j) = 0)"
proof (induction fs arbitrary: i victim a)
  case Nil
  then show ?case by simp
next
  case (Cons x xs)
  show ?case
  proof (cases "pinCount x = 0 \<and> lastAccessed x < a")
    case True
    with Cons.prems have "lru_loop xs (Suc i) (Some i) (lastAccessed x) = Some v" by simp
    from Cons.IH [OF this] consider "i = v" | j where "j < length xs" "v = Suc i + j" "pinCount (xs ! j) = 0"
      by auto
    then show ?thesis
    proof cases
      case 1
      with True show ?thesis by (intro disjI2 exI [where x = 0]) simp
    next
      case 2
      then show ?thesis by (intro disjI2 exI [where x = "Suc j"]) simp
    qed
  next
    case False
    with Cons.prems have "lru_loop xs (Suc i) victim a = Some v" by auto
    from Cons.IH [OF this] consider "victim = Some v" | j where "j < length xs" "v = Suc i + j" "pinCount (xs ! j) = 0"
      by auto
    then show ?thesis
    proof cases
      case 1
      then show ?thesis by simp
    next
      case 2
      then show ?thesis by (intro disjI2 exI [where x = "Suc j"]) simp
    qed
  qed
qed

lemma lfu_loop_Some:
  "lfu_loop fs i victim a b = Some v \<Longrightarrow>
     victim = Some v \<or> (\<exists>j < length fs. v = i + j \<and> pinCount (fs ! j) = 0)"
proof (induction fs arbitrary: i victim a b)
  case Nil
  then show ?case by simp
next
  case (Cons x xs)
  show ?case
  proof (cases "pinCount x = 0")
    case True
    from Cons.prems True
    consider a' b' where "lfu_loop xs (Suc i) (Some i) a' b' = Some v"
      | "lfu_loop xs (Suc i) victim a b = Some v"
      by (auto split: if_splits)
    then show ?thesis
    proof cases
      case 1
      from Cons.IH [OF 1] consider "i = v" | j where "j < length xs" "v = Suc i + j" "pinCount (xs ! j) = 0"
        by auto
      then show ?thesis
      proof cases
        case 1
        with True show ?thesis by (intro disjI2 exI [where x = 0]) simp
      next
        case 2
        then show ?thesis by (intro disjI2 exI [where x = "Suc j"]) simp
      qed
    next
      case 2
      from Cons.IH [OF 2] consider "victim = Some v" | j where "j < length xs" "v = Suc i + j" "pinCount (xs ! j) = 0"
        by auto
      then show ?thesis
      proof cases
        case 1
        then show ?thesis by simp
      next
        case 2
        then show ?thesis by (intro disjI2 exI [where x = "Suc j"]) simp
      qed
    qed
  next
    case False
    with Cons.prems have "lfu_loop xs (Suc i) victim a b = Some v" by auto
    from Cons.IH [OF this] consider "victim = Some v" | j where "j < length xs" "v = Suc i + j" "pinCount (xs ! j) = 0"
      by auto
    then show ?thesis
    proof cases
      case 1
      then show ?thesis by simp
    next
      case 2
      then show ?thesis by (intro disjI2 exI [where x = "Suc j"]) simp
    qed
  qed
qed

lemma clock_loop_Returns:
  "clock_loop m cur = Some (Returns (v, m')) \<Longrightarrow>
     v < length (frames m') \<and> pinCount (frames m' ! v) = 0
     \<and> strip_access (frames m') = strip_access (frames m)
     \<and> m'\<lparr>frames := [], clockHand := 0\<rparr> = m\<lparr>frames := [], clockHand := 0\<rparr>"
proof (rule clock_loop.raw_induct
    [where P = "\<lambda>m cur r. \<forall>v m'. r = Returns (v, m') \<longrightarrow>
       v < length (frames m') \<and> pinCount (frames m' ! v) = 0
       \<and> strip_access (frames m') = strip_access (frames m)
       \<and> m'\<lparr>frames := [], clockHand := 0\<rparr> = m\<lparr>frames := [], clockHand := 0\<rparr>",
     rule_format], goal_cases)
  case (1 f m cur r v m')
  show ?case
  proof (cases "length (frames m) \<le> cur \<or> totalFrames m = 0")
    case True
    with 1(3,4) show ?thesis by simp
  next
    case g: False
    show ?thesis
    proof (cases "pinCount (frames m ! cur) = 0 \<and> accessCount (frames m ! cur) = 0")
      case True
      with 1(3,4) g show ?thesis by (auto simp: Let_def)
    next
      case False
      define fs where "fs = (if accessCount (frames m ! cur) > 0
                             then (frames m)[cur := (frames m ! cur)\<lparr>accessCount := 0\<rparr>]
                             else frames m)"
      define m1 where "m1 = m\<lparr>frames := fs, clockHand := c_rem (clockHand m + 1) (totalFrames m)\<rparr>"
      from 1(3) g False have rec: "f m1 (next_node fs cur) = Some r"
        by (auto simp: Let_def fs_def m1_def split: if_splits)
      have sa: "strip_access fs = strip_access (frames m)"
        by (simp add: fs_def strip_access_update)
      from 1(2) [OF rec, rule_format, OF 1(4)]
      have "v < length (frames m') \<and> pinCount (frames m' ! v) = 0
            \<and> strip_access (frames m') = strip_access (frames m1)
            \<and> m'\<lparr>frames := [], clockHand := 0\<rparr> = m1\<lparr>frames := [], clockHand := 0\<rparr>"
        by simp
      then show ?thesis using sa by (simp add: m1_def)
    qed
  qed
qed simp_all


lemma select_victim_Some:
  assumes "select_victim strat m = Returns (Some v, m')"
  shows "v < length (frames m') \<and> pinCount (frames m' ! v) = 0
         \<and> strip_access (frames m') = strip_access (frames m)"
proof (cases strat)
  case RS_FIFO
  with assms show ?thesis
    by (auto simp: select_victim_def replaceFIFO_def Let_def
          split: option.splits if_splits dest: fifo_loop_Some)
next
  case RS_LRU
  with assms have "lru_loop (frames m) 0 None (globalTimer m + 1) = Some v" "m' = m"
    by (auto simp: select_victim_def replaceLRU_def)
  with lru_loop_Some [of "frames m" 0 None _ v] show ?thesis by auto
next
  case RS_CLOCK
  with assms obtain cur where "clock_loop m cur = Some (Returns (v, m'))"
    by (auto simp: select_victim_def replaceCLOCK_def split: if_splits option.splits outcome.splits)
  from clock_loop_Returns [OF this] show ?thesis by simp
next
  case RS_LFU
  with assms have "lfu_loop (frames m) 0 None INT_MAX INT_MAX = Some v" "m' = m"
    by (auto simp: select_victim_def replaceLFU_def)
  with lfu_loop_Some [of "frames m" 0 None _ _ v] show ?thesis by auto
next
  case RS_LRU_K
  with assms show ?thesis by (simp add: select_victim_def)
qed

lemma select_victim_frames:
  assumes "select_victim strat m = Returns (victim, m')"
  shows "strip_access (frames m') = strip_access (frames m)"
proof (cases strat)
  case RS_FIFO
  with assms show ?thesis
    by (auto simp: select_victim_def replaceFIFO_def Let_def split: option.splits if_splits)
next
  case RS_CLOCK
  with assms obtain cur v where "clock_loop m cur = Some (Returns (v, m'))"
    by (auto simp: select_victim_def replaceCLOCK_def split: if_splits option.splits outcome.splits)
  from clock_loop_Returns [OF this] show ?thesis by simp
qed (use assms in \<open>auto simp: select_victim_def\<close>)

lemma sum_list_pin_update:
  "i < length fs \<Longrightarrow>
     sum_list (map pinCount (fs[i := n])) = sum_list (map pinCount fs) - pinCount (fs ! i) + pinCount n"
proof (induction fs arbitrary: i)
  case Nil
  then show ?case by simp
next
  case (Cons x xs)
  then show ?case by (cases i) auto
qed

lemma unpinPage_pin_sum:
  "unpinPage bm page = (RC_OK, bm') \<Longrightarrow> pin_sum bm' = pin_sum bm - 1"
  by (auto simp: unpinPage_def findPage_def pin_sum_def Let_def sum_list_pin_update
        split: option.splits if_splits dest!: find_node_Some)

lemma markDirty_pin_sum:
  "markDirty bm page = (rc, bm') \<Longrightarrow> pin_sum bm' = pin_sum bm"
  by (auto simp: markDirty_def findPage_def pin_sum_def Let_def sum_list_pin_update
        split: option.splits dest!: find_node_Some)

lemma store_at_pin_sum:
  "store_at bm page off bs = Returns bm' \<Longrightarrow> pin_sum bm' = pin_sum bm"
  by (auto simp: store_at_def pin_sum_def Let_def sum_list_pin_update split: if_splits)

lemma openPageFile_Inl [simp]: "openPageFile PAGE_SIZE fs name \<noteq> Inl RC_OK"
  by (simp add: openPageFile_def split: option.splits)

lemma pin_replace_pin_sum:
  assumes "pin_replace PAGE_SIZE bm m (Some v) page pn fs = Returns (RC_OK, bm', page', fs')"
    and "pinCount (frames m ! v) = 0"
  shows "pin_sum bm' = sum_list (map pinCount (frames m)) + 1"
  using assms
  by (auto simp: pin_replace_def pin_sum_def Let_def sum_list_pin_update
        split: if_splits sum.splits outcome.splits prod.splits)

lemma pinPage_pin_sum:
  assumes "pinPage PAGE_SIZE bm page pn fs = Returns (RC_OK, bm', page', fs')"
  shows "pin_sum bm' = pin_sum bm + 1"
proof (cases "findPage (mgmtData bm) pn")
  case (Some i)
  then have "i < length (frames (mgmtData bm))"
    by (auto simp: findPage_def dest: find_node_Some)
  with assms Some show ?thesis
    by (auto simp: pinPage_def pin_resident_def pin_sum_def Let_def sum_list_pin_update)
next
  case None
  show ?thesis
  proof (cases "numFramesUsed (mgmtData bm) < totalFrames (mgmtData bm)")
    case True
    with assms None show ?thesis
      by (auto simp: pinPage_def pin_new_frame_def pin_sum_def Let_def createNode_def
            split: sum.splits outcome.splits if_splits)
  next
    case False
    with assms None obtain victim m where
      sv: "select_victim (strategy bm) (mgmtData bm) = Returns (victim, m)"
      and pr: "pin_replace PAGE_SIZE bm m victim page pn fs = Returns (RC_OK, bm', page', fs')"
      by (auto simp: pinPage_def split: outcome.splits)
    from pr obtain v where v: "victim = Some v"
      by (cases victim) (auto simp: pin_replace_def)
    from select_victim_Some [OF sv [unfolded v]]
    have p0: "pinCount (frames m ! v) = 0"
      and sa: "strip_access (frames m) = strip_access (frames (mgmtData bm))" by auto
    from pin_replace_pin_sum [OF pr [unfolded v] p0] strip_access_map(1) [OF sa [symmetric]]
    show ?thesis by (simp add: pin_sum_def)
  qed
qed


lemma find_slot_loop_counts:
  "find_slot_loop PAGE_SIZE recordSize mgr fs pg slot = Some (Returns (rc, mgr', fs', pg', slot')) \<Longrightarrow>
     tupleCount mgr' = tupleCount mgr
     \<and> (rc = RC_OK \<longrightarrow> pin_sum (dataPool mgr') = pin_sum (dataPool mgr))"
proof (rule find_slot_loop.raw_induct
    [where P = "\<lambda>PAGE_SIZE recordSize mgr fs pg slot r.
       \<forall>rc mgr' fs' pg' slot'. r = Returns (rc, mgr', fs', pg', slot') \<longrightarrow>
         tupleCount mgr' = tupleCount mgr
         \<and> (rc = RC_OK \<longrightarrow> pin_sum (dataPool mgr') = pin_sum (dataPool mgr))",
     rule_format], goal_cases)
  case (1 f PAGE_SIZE recordSize mgr fs pg slot r rc mgr' fs' pg' slot')
  show ?case
  proof (cases "slot \<noteq> - 1")
    case True
    with 1(3,4) show ?thesis by simp
  next
    case s: False
    obtain rc1 bm1 where u: "unpinPage (dataPool mgr) (pageInfo mgr) = (rc1, bm1)"
      by (cases "unpinPage (dataPool mgr) (pageInfo mgr)")
    show ?thesis
    proof (cases "rc1 = RC_OK")
      case False
      with 1(3,4) s u show ?thesis by auto
    next
      case ok1: True
      from unpinPage_pin_sum [OF u [unfolded ok1]] have p1: "pin_sum bm1 = pin_sum (dataPool mgr) - 1" .
      show ?thesis
      proof (cases "pinPage PAGE_SIZE bm1 (pageInfo mgr) (pg + 1) fs")
        case Fault
        with 1(3,4) s u ok1 show ?thesis by simp
      next
        case Diverges
        with 1(3,4) s u ok1 show ?thesis by simp
      next
        case (Returns x)
        then obtain rc2 bm2 page2 fs2 where
          p: "pinPage PAGE_SIZE bm1 (pageInfo mgr) (pg + 1) fs = Returns (rc2, bm2, page2, fs2)"
          by (cases x) auto
        show ?thesis
        proof (cases "rc2 = RC_OK")
          case False
          with 1(3,4) s u ok1 p show ?thesis by auto
        next
          case ok2: True
          from pinPage_pin_sum [OF p [unfolded ok2]] p1
          have p2: "pin_sum bm2 = pin_sum (dataPool mgr)" by simp
          from 1(3) s u ok1 p ok2
          have "f PAGE_SIZE recordSize (mgr\<lparr>dataPool := bm2, pageInfo := page2\<rparr>) fs2 (pg + 1)
                  (locateEmptySlot PAGE_SIZE (handle_data bm2 page2) recordSize) = Some r"
            by simp
          from 1(2) [OF this, rule_format, OF 1(4)] p2 show ?thesis by simp
        qed
      qed
    qed
  qed
qed simp_all

lemma insertRecord_counts:
  assumes "insertRecord PAGE_SIZE rel mgr record fs = Returns (RC_OK, mgr', record', fs')"
  shows "tupleCount mgr' = tupleCount mgr + 1 \<and> pin_sum (dataPool mgr') = pin_sum (dataPool mgr) + 1"
proof -
  define rs where "rs = getRecordSize (rel_schema rel)"
  from assms have rs: "\<not> rs \<le> 0"
    by (auto simp: insertRecord_def rs_def Let_def)
  from assms rs obtain bm1 page1 fs1 where
    p1: "pinPage PAGE_SIZE (dataPool mgr) (pageInfo mgr) (freePageIndex mgr) fs
           = Returns (RC_OK, bm1, page1, fs1)"
    by (auto simp: insertRecord_def rs_def Let_def split: outcome.splits if_splits)
  from assms rs p1 obtain mgr2 fs2 pg2 slot2 where
    l: "find_slot_loop PAGE_SIZE rs (mgr\<lparr>dataPool := bm1, pageInfo := page1\<rparr>) fs1
          (freePageIndex mgr) (locateEmptySlot PAGE_SIZE (handle_data bm1 page1) rs)
        = Some (Returns (RC_OK, mgr2, fs2, pg2, slot2))"
    by (auto simp: insertRecord_def rs_def [symmetric] Let_def
          split: outcome.splits if_splits option.splits prod.splits)
  from assms rs p1 l obtain bm3 bm4 bm5 bm7 page7 where
    md: "markDirty (dataPool mgr2) (pageInfo mgr2) = (RC_OK, bm3)"
    and st: "store_at bm3 (pageInfo mgr2) (slot2 * rs)
               (PLUS # take (nat rs - 1) (drop 1 (rec_data record))) = Returns bm4"
    and up: "unpinPage bm4 (pageInfo mgr2) = (RC_OK, bm5)"
    and p7: "pinPage PAGE_SIZE bm5 (pageInfo mgr2) 0 fs2 = Returns (RC_OK, bm7, page7, fs')"
    and m': "mgr' = mgr2\<lparr>dataPool := bm7, tupleCount := tupleCount mgr2 + 1, pageInfo := page7\<rparr>"
    by (auto simp: insertRecord_def rs_def [symmetric] Let_def
          split: outcome.splits if_splits option.splits prod.splits)
  from find_slot_loop_counts [OF l]
  have c2: "tupleCount mgr2 = tupleCount mgr" "pin_sum (dataPool mgr2) = pin_sum bm1" by simp_all
  from pinPage_pin_sum [OF p1] markDirty_pin_sum [OF md] store_at_pin_sum [OF st]
    unpinPage_pin_sum [OF up] pinPage_pin_sum [OF p7] c2 m'
  show ?thesis by simp
qed

text \<open>
  C6 (the code departs from the claim): whenever \<^verbatim>\<open>insertRecord\<close> returns \<open>RC_OK\<close>, the
  sum of the pin counts of the table's pool is one more than before the call.  The pins
  and unpins of the data pages balance; the last statement pins page 0 and the function
  returns without unpinning it.
\<close>

theorem insertRecord_pin_sum_grows:
  assumes "insertRecord PAGE_SIZE rel mgr record fs = Returns (RC_OK, mgr', record', fs')"
  shows "pin_sum (dataPool mgr') = pin_sum (dataPool mgr) + 1"
  using insertRecord_counts [OF assms] by simp

lemma deleteRecord_tupleCount:
  "deleteRecord PAGE_SIZE rel mgr rid fs = Returns (rc, mgr', fs') \<Longrightarrow> tupleCount mgr' = tupleCount mgr"
  by (auto simp: deleteRecord_def Let_def split: outcome.splits if_splits prod.splits)


lemmas rm_defs = insertRecord_def deleteRecord_def getRecord_def createTable_def openTable_def
  createRecord_def getAttr_def setAttr_def startScan_def next_tuple_def getRecordSize_def
  getAttributeOffset_def attrs_upto_def attr_rows_def header_bytes_def strncpy_def c_string_def
  load_at_def store_at_def handle_data_def record_payload_def locateEmptySlot_def value_bytes_def
  forcePage_def write_frame_def enc32_def dec32_def
  DT_INT_def DT_STRING_def DT_FLOAT_def DT_BOOL_def sizeof_int_def sizeof_float_def sizeof_bool_def
  MAX_BUFFER_SIZE_def ATTR_NAME_MAX_LENGTH_def PLUS_def MINUS_def getNumTuples_def

lemmas scenario_defs = and_then_def id_equals_def id_schema_def blank_schema_def blank_table_def
  new_table_def insert_id_def three_rows_def



text \<open>
  The table \<^verbatim>\<open>"t"\<close> with the attribute \<^verbatim>\<open>id\<close>, created, opened, and filled with the rows
  1, 2 and 3 (\<open>PAGE_SIZE = 4096\<close>), with no row deleted: page 1 holds the three live
  slots and nothing else.  A scan with the condition \<^verbatim>\<open>id == 2\<close> is started; the first
  \<^verbatim>\<open>next\<close> returns \<open>RC_OK\<close> with the record of slot 1 of page 1, whose id reads 2, and
  the second \<^verbatim>\<open>next\<close> returns \<open>RC_RM_NO_MORE_TUPLES\<close>.
\<close>

lemma scan_after_three_inserts:
  "(case three_rows 4096 of
      Returns (rel, ti, fs) \<Rightarrow>
        getNumTuples ti = 3
        \<and> take 2 (getFrameContents (dataPool ti)) = [0, 1]
        \<and> data (frames (mgmtData (dataPool ti)) ! 1)
            = [PLUS, 1, 0, 0, 0, PLUS, 2, 0, 0, 0, PLUS, 3, 0, 0, 0] @ zeroes 4081
        \<and> (case startScan 4096 blank_schema blank_table rel ti (Some (id_equals 2)) fs of
              Returns (rc, rel1, ti1, scan1, fs1) \<Rightarrow>
                rc = RC_OK
                \<and> (case scan1 of
                      None \<Rightarrow> False
                    | Some scan \<Rightarrow>
                        (case next_tuple 4096 rel1 ti1 scan
                                \<lparr>rec_id = \<lparr>rid_page = - 1, rid_slot = - 1\<rparr>,
                                 rec_data = MINUS # zeroes 4\<rparr> fs1 of
                           Returns (rc2, ti2, scan2, r2, fs2) \<Rightarrow>
                             rc2 = RC_OK
                             \<and> rec_id r2 = \<lparr>rid_page = 1, rid_slot = 1\<rparr>
                             \<and> getAttr r2 (rel_schema rel1) 0
                                 = Returns (RC_OK, rel_schema rel1, Some (IntV 2))
                             \<and> (case next_tuple 4096 rel1 ti2 scan2 r2 fs2 of
                                   Returns (rc3, ti3, scan3, r3, fs3) \<Rightarrow>
                                     rc3 = RC_RM_NO_MORE_TUPLES
                                 | Fault \<Rightarrow> False
                                 | Diverges \<Rightarrow> False)
                         | Fault \<Rightarrow> False
                         | Diverges \<Rightarrow> False))
            | Fault \<Rightarrow> False
            | Diverges \<Rightarrow> False)
    | Fault \<Rightarrow> False
    | Diverges \<Rightarrow> False)"
  by (simp add: scenario_defs rm_defs bm_defs sm_defs zeroes_def Let_def
        find_slot_loop.simps locate_loop.simps next_loop.simps lru_loop.simps)

text \<open>
  C5 (the code departs from the claim): \<^verbatim>\<open>next\<close> copies the slot and evaluates the
  condition without looking at the tombstone, so a scan returns deleted rows.  Here
  (\<open>PAGE_SIZE = 4096\<close>) the table holds the rows 1, 2 and 3 in the slots 0, 1 and 2 of
  page 1, and slot 3 holds a deleted row with id 2, for which \<^verbatim>\<open>getRecord\<close> returns
  \<open>RC_RM_NO_TUPLE_WITH_GIVEN_RID\<close>.  A scan with the condition \<^verbatim>\<open>id == 2\<close> is started;
  the first \<^verbatim>\<open>next\<close> returns \<open>RC_OK\<close> with the record of slot 1, whose id reads 2, and
  the second \<^verbatim>\<open>next\<close> does not return \<open>RC_RM_NO_MORE_TUPLES\<close>: it returns \<open>RC_OK\<close> with
  the deleted record of slot 3, whose id reads 2.
\<close>

theorem scan_returns_deleted_row:
  "(case fourth_row_deleted 4096 of
      Returns (rel, ti, fs) \<Rightarrow>
        take 20 (data (frames (mgmtData (dataPool ti)) ! 1))
            = [PLUS, 1, 0, 0, 0, PLUS, 2, 0, 0, 0, PLUS, 3, 0, 0, 0, MINUS, 2, 0, 0, 0]
        \<and> drop 20 (data (frames (mgmtData (dataPool ti)) ! 1)) = zeroes 4076
        \<and> (case getRecord 4096 rel ti \<lparr>rid_page = 1, rid_slot = 3\<rparr>
                   \<lparr>rec_id = \<lparr>rid_page = - 1, rid_slot = - 1\<rparr>, rec_data = MINUS # zeroes 4\<rparr> fs of
              Returns (rc0, ti0, r0, fs0) \<Rightarrow> rc0 = RC_RM_NO_TUPLE_WITH_GIVEN_RID
            | Fault \<Rightarrow> False
            | Diverges \<Rightarrow> False)
        \<and> (case startScan 4096 blank_schema blank_table rel ti (Some (id_equals 2)) fs of
              Returns (rc, rel1, ti1, scan1, fs1) \<Rightarrow>
                rc = RC_OK
                \<and> (case scan1 of
                      None \<Rightarrow> False
                    | Some scan \<Rightarrow>
                        (case next_tuple 4096 rel1 ti1 scan
                                \<lparr>rec_id = \<lparr>rid_page = - 1, rid_slot = - 1\<rparr>,
                                 rec_data = MINUS # zeroes 4\<rparr> fs1 of
                           Returns (rc2, ti2, scan2, r2, fs2) \<Rightarrow>
                             rc2 = RC_OK
                             \<and> rec_id r2 = \<lparr>rid_page = 1, rid_slot = 1\<rparr>
                             \<and> getAttr r2 (rel_schema rel1) 0
                                 = Returns (RC_OK, rel_schema rel1, Some (IntV 2))
                             \<and> (case next_tuple 4096 rel1 ti2 scan2 r2 fs2 of
                                   Returns (rc3, ti3, scan3, r3, fs3) \<Rightarrow>
                                     rc3 = RC_OK \<and> rc3 \<noteq> RC_RM_NO_MORE_TUPLES
                                     \<and> rec_id r3 = \<lparr>rid_page = 1, rid_slot = 3\<rparr>
                                     \<and> getAttr r3 (rel_schema rel1) 0
                                         = Returns (RC_OK, rel_schema rel1, Some (IntV 2))
                                 | Fault \<Rightarrow> False
                                 | Diverges \<Rightarrow> False)
                         | Fault \<Rightarrow> False
                         | Diverges \<Rightarrow> False))
            | Fault \<Rightarrow> False
            | Diverges \<Rightarrow> False)
    | Fault \<Rightarrow> False
    | Diverges \<Rightarrow> False)"
  by (simp add: fourth_row_deleted_def scenario_defs rm_defs bm_defs sm_defs zeroes_def Let_def
        find_slot_loop.simps locate_loop.simps next_loop.simps lru_loop.simps)

text \<open>
  The failing input: the new table \<^verbatim>\<open>"t"\<close> (no frame is pinned) and the insertion of a
  record with id 1, which returns \<open>RC_OK\<close>; afterwards page 0 has pin count 1.
\<close>

theorem insertRecord_pin_sum_witness:
  "(case new_table 4096 of
      Returns (rel, ti, fs) \<Rightarrow>
        pin_sum (dataPool ti) = 0
        \<and> (case insertRecord 4096 rel ti
                   \<lparr>rec_id = \<lparr>rid_page = - 1, rid_slot = - 1\<rparr>,
                    rec_data = MINUS # enc32 1\<rparr> fs of
              Returns (rc, ti', record', fs') \<Rightarrow>
                rc = RC_OK \<and> rec_id record' = \<lparr>rid_page = 1, rid_slot = 0\<rparr>
                \<and> take 2 (getFrameContents (dataPool ti')) = [0, 1]
                \<and> take 2 (getFixCounts (dataPool ti')) = [1, 0]
                \<and> pin_sum (dataPool ti') = 1
            | Fault \<Rightarrow> False
            | Diverges \<Rightarrow> False)
    | Fault \<Rightarrow> False
    | Diverges \<Rightarrow> False)"
proof -
  have "\<exists>rel ti fs ti' record' fs'.
          new_table 4096 = Returns (rel, ti, fs) \<and> pin_sum (dataPool ti) = 0
          \<and> insertRecord 4096 rel ti \<lparr>rec_id = \<lparr>rid_page = - 1, rid_slot = - 1\<rparr>,
                    rec_data = MINUS # enc32 1\<rparr> fs = Returns (RC_OK, ti', record', fs')
          \<and> rec_id record' = \<lparr>rid_page = 1, rid_slot = 0\<rparr>
          \<and> take 2 (getFrameContents (dataPool ti')) = [0, 1]
          \<and> take 2 (getFixCounts (dataPool ti')) = [1, 0]"
    by (simp add: scenario_defs rm_defs bm_defs sm_defs zeroes_def Let_def pin_sum_def
          find_slot_loop.simps locate_loop.simps lru_loop.simps)
  then obtain rel ti fs ti' record' fs' where nt: "new_table 4096 = Returns (rel, ti, fs)"
    and p0: "pin_sum (dataPool ti) = 0"
    and ins: "insertRecord 4096 rel ti \<lparr>rec_id = \<lparr>rid_page = - 1, rid_slot = - 1\<rparr>,
                    rec_data = MINUS # enc32 1\<rparr> fs = Returns (RC_OK, ti', record', fs')"
    and obs: "rec_id record' = \<lparr>rid_page = 1, rid_slot = 0\<rparr>"
       "take 2 (getFrameContents (dataPool ti')) = [0, 1]"
       "take 2 (getFixCounts (dataPool ti')) = [1, 0]"
    by blast
  from insertRecord_pin_sum_grows [OF ins] p0 have "pin_sum (dataPool ti') = 1" by simp
  with nt p0 ins obs show ?thesis by simp
qed

text \<open>
  C10: \<^verbatim>\<open>deleteRecord\<close> does not touch the tuple count, whatever it returns, while an
  \<^verbatim>\<open>insertRecord\<close> that returns \<open>RC_OK\<close> adds one to it.
\<close>

theorem deleteRecord_keeps_tuple_count:
  "(deleteRecord PAGE_SIZE rel mgr rid fs = Returns (rc, mgr1, fs1)
      \<longrightarrow> getNumTuples mgr1 = getNumTuples mgr)
   \<and> (insertRecord PAGE_SIZE rel mgr record fs = Returns (RC_OK, mgr2, record2, fs2)
      \<longrightarrow> getNumTuples mgr2 = getNumTuples mgr + 1)"
  using deleteRecord_tupleCount [of PAGE_SIZE rel mgr rid fs rc mgr1 fs1]
    insertRecord_counts [of PAGE_SIZE rel mgr "record" fs mgr2 record2 fs2]
  by (simp add: getNumTuples_def)

text \<open>
  An instance: the table with the rows 1, 2 and 3 has tuple count 3; deleting the row in
  slot 1 of page 1 returns \<open>RC_OK\<close>, marks the slot with \<^verbatim>\<open>'-'\<close>, and the count is still 3.
\<close>

theorem deleteRecord_keeps_tuple_count_witness:
  "(case three_rows 4096 of
      Returns (rel, ti, fs) \<Rightarrow>
        getNumTuples ti = 3
        \<and> (case deleteRecord 4096 rel ti \<lparr>rid_page = 1, rid_slot = 1\<rparr> fs of
              Returns (rc, ti', fs') \<Rightarrow>
                rc = RC_OK \<and> getNumTuples ti' = 3
                \<and> take 15 (data (frames (mgmtData (dataPool ti')) ! 1))
                    = [PLUS, 1, 0, 0, 0, MINUS, 2, 0, 0, 0, PLUS, 3, 0, 0, 0]
            | Fault \<Rightarrow> False
            | Diverges \<Rightarrow> False)
    | Fault \<Rightarrow> False
    | Diverges \<Rightarrow> False)"
proof -
  have "\<exists>rel ti fs ti' fs'.
          three_rows 4096 = Returns (rel, ti, fs) \<and> getNumTuples ti = 3
          \<and> deleteRecord 4096 rel ti \<lparr>rid_page = 1, rid_slot = 1\<rparr> fs
               = Returns (RC_OK, ti', fs')
          \<and> take 15 (data (frames (mgmtData (dataPool ti')) ! 1))
                    = [PLUS, 1, 0, 0, 0, MINUS, 2, 0, 0, 0, PLUS, 3, 0, 0, 0]"
    by (simp add: scenario_defs rm_defs bm_defs sm_defs zeroes_def Let_def
          find_slot_loop.simps locate_loop.simps lru_loop.simps)
  then obtain rel ti fs ti' fs' where t: "three_rows 4096 = Returns (rel, ti, fs)"
    and n: "getNumTuples ti = 3"
    and d: "deleteRecord 4096 rel ti \<lparr>rid_page = 1, rid_slot = 1\<rparr> fs
               = Returns (RC_OK, ti', fs')"
    and obs: "take 15 (data (frames (mgmtData (dataPool ti')) ! 1))
                    = [PLUS, 1, 0, 0, 0, MINUS, 2, 0, 0, 0, PLUS, 3, 0, 0, 0]"
    by blast
  from deleteRecord_keeps_tuple_count
         [of 4096 rel ti "\<lparr>rid_page = 1, rid_slot = 1\<rparr>" fs RC_OK ti' fs'] d n
  have "getNumTuples ti' = 3" by simp
  with t n d obs show ?thesis by simp
qed

section \<open>The pool as its clients see it: properties\<close>

lemma length_file_page: "length (file_page PAGE_SIZE bytes q) = PAGE_SIZE"
  by (simp add: file_page_def zeroes_def)












lemma pool_okD:
  assumes "pool_ok PAGE_SIZE bm fs"
  obtains bytes k where "0 < PAGE_SIZE" "fs (pageFile bm) = Some bytes"
    "file_bytes fs (pageFile bm) = bytes" "length bytes = k * PAGE_SIZE"
    "\<And>i. i < length (frames (mgmtData bm)) \<Longrightarrow> frame_ok PAGE_SIZE bytes (frames (mgmtData bm) ! i)"
    "distinct (map pageNum (frames (mgmtData bm)))"
proof -
  from assms obtain bytes where b: "fs (pageFile bm) = Some bytes"
    unfolding pool_ok_def by blast
  then have fb: "file_bytes fs (pageFile bm) = bytes" by (simp add: file_bytes_def)
  from assms have m: "length (file_bytes fs (pageFile bm)) mod PAGE_SIZE = 0"
    and la: "list_all (frame_ok PAGE_SIZE (file_bytes fs (pageFile bm))) (frames (mgmtData bm))"
    and ps: "0 < PAGE_SIZE" and di: "distinct (map pageNum (frames (mgmtData bm)))"
    unfolding pool_ok_def by blast+
  from m fb have "PAGE_SIZE dvd length bytes" by (simp add: mod_eq_0_iff_dvd)
  then have l: "length bytes = (length bytes div PAGE_SIZE) * PAGE_SIZE" by simp
  from la fb
  have f: "i < length (frames (mgmtData bm)) \<Longrightarrow> frame_ok PAGE_SIZE bytes (frames (mgmtData bm) ! i)" for i
    by (simp add: list_all_length)
  from ps b fb l f di show ?thesis by (rule that)
qed



lemma handle_onD:
  assumes "pool_ok PAGE_SIZE bm fs" "handle_on bm page pn"
  shows "ph_frame page < length (frames (mgmtData bm))"
    and "pageNum (frames (mgmtData bm) ! ph_frame page) = pn"
    and "0 \<le> pn"
    and "handle_data bm page = page_view PAGE_SIZE bm fs pn"
    and "length (page_view PAGE_SIZE bm fs pn) = PAGE_SIZE"
proof -
  from assms(2) have f: "find_node (frames (mgmtData bm)) pn = Some (ph_frame page)"
    by (simp add: handle_on_def findPage_def)
  from find_node_Some [OF f]
  show i: "ph_frame page < length (frames (mgmtData bm))"
    and p: "pageNum (frames (mgmtData bm) ! ph_frame page) = pn" by simp_all
  from assms(1) obtain bytes where
    "\<And>i. i < length (frames (mgmtData bm)) \<Longrightarrow> frame_ok PAGE_SIZE bytes (frames (mgmtData bm) ! i)"
    by (rule pool_okD) blast
  from this [OF i] have fo: "frame_ok PAGE_SIZE bytes (frames (mgmtData bm) ! ph_frame page)" .
  with p show n: "0 \<le> pn" by (simp add: frame_ok_def)
  from n f show v: "handle_data bm page = page_view PAGE_SIZE bm fs pn"
    by (simp add: handle_data_def page_view_def findPage_def)
  from fo v show "length (page_view PAGE_SIZE bm fs pn) = PAGE_SIZE"
    by (simp add: frame_ok_def handle_data_def)
qed





lemma store_at_Returns:
  assumes ok: "pool_ok PAGE_SIZE bm fs" and h: "handle_on bm page pn"
    and rng: "0 \<le> off" "nat off + length bs \<le> PAGE_SIZE"
  shows "\<exists>bm'. store_at bm page off bs = Returns bm'"
  using handle_onD [OF ok h] rng by (simp add: store_at_def Let_def handle_data_def)


lemma load_at_Returns:
  assumes ok: "pool_ok PAGE_SIZE bm fs" and h: "handle_on bm page pn"
    and l: "load_at bm page off len = Returns bs"
  shows "bs = take len (drop (nat off) (page_view PAGE_SIZE bm fs pn))
         \<and> 0 \<le> off \<and> nat off + len \<le> PAGE_SIZE"
  using handle_onD [OF ok h] l by (auto simp: load_at_def split: if_splits)










section \<open>Record manager: a record is read back as it was inserted\<close>









end
